theory Spec2Isabelle
  imports Complex_Main
begin

section \<open>Python strings and the regular expressions of the masker\<close>

text \<open>
  A text is a list of 8-bit characters, read as code points below 256. The character
  classes are those of Python's \<open>re\<close> module on \<open>str\<close> patterns, restricted to that
  range: \<open>\d\<close> is a decimal digit, \<open>\s\<close> is what \<open>str.isspace\<close> accepts, \<open>\w\<close> is an
  alphanumeric character or the underscore.
\<close>

definition is_digit :: "char \<Rightarrow> bool" where
  "is_digit c = (c \<in> set ''0123456789'')"

definition is_space :: "char \<Rightarrow> bool" where
  "is_space c = (c \<in> set [CHR 0x09, CHR 0x0A, CHR 0x0B, CHR 0x0C, CHR 0x0D,
                            CHR 0x1C, CHR 0x1D, CHR 0x1E, CHR 0x1F, CHR 0x20,
                            CHR 0x85, CHR 0xA0])"

definition is_word :: "char \<Rightarrow> bool" where
  "is_word c =
     (let n = (of_char c :: nat)
      in (48 \<le> n \<and> n \<le> 57) \<or> (65 \<le> n \<and> n \<le> 90) \<or> n = 95 \<or> (97 \<le> n \<and> n \<le> 122)
         \<or> n \<in> set [170, 178, 179, 181, 185, 186, 188, 189, 190]
         \<or> (192 \<le> n \<and> n \<le> 214) \<or> (216 \<le> n \<and> n \<le> 246) \<or> 248 \<le> n)"

definition lower :: "char \<Rightarrow> char" where
  "lower c = (case map_of (zip ''ABCDEFGHIJKLMNOPQRSTUVWXYZ'' ''abcdefghijklmnopqrstuvwxyz'') c of
                None \<Rightarrow> c | Some l \<Rightarrow> l)"

text \<open>
  A position in the subject string: the text before it, reversed, and the text after it.
  A matcher is written in continuation-passing style, so that a greedy quantifier
  backtracks the way \<open>re\<close> does: it first tries the longest repetition and gives
  characters back while the rest of the pattern fails.
\<close>

type_synonym pos = "string \<times> string"

definition at_boundary :: "pos \<Rightarrow> bool" where
  "at_boundary p =
     ((case fst p of [] \<Rightarrow> False | c # _ \<Rightarrow> is_word c)
        \<noteq> (case snd p of [] \<Rightarrow> False | c # _ \<Rightarrow> is_word c))"

definition wordb :: "(pos \<Rightarrow> 'a option) \<Rightarrow> pos \<Rightarrow> 'a option" where
  "wordb k p = (if at_boundary p then k p else None)"

definition one :: "(char \<Rightarrow> bool) \<Rightarrow> (pos \<Rightarrow> 'a option) \<Rightarrow> pos \<Rightarrow> 'a option" where
  "one P k p = (case snd p of [] \<Rightarrow> None
                | c # r \<Rightarrow> if P c then k (c # fst p, r) else None)"

definition opt_one :: "(char \<Rightarrow> bool) \<Rightarrow> (pos \<Rightarrow> 'a option) \<Rightarrow> pos \<Rightarrow> 'a option" where
  "opt_one P k p = (case one P k p of Some x \<Rightarrow> Some x | None \<Rightarrow> k p)"

fun many1 :: "(char \<Rightarrow> bool) \<Rightarrow> (pos \<Rightarrow> 'a option) \<Rightarrow> pos \<Rightarrow> 'a option" where
  "many1 P k (b, []) = None"
| "many1 P k (b, c # r) =
     (if P c then (case many1 P k (c # b, r) of Some x \<Rightarrow> Some x | None \<Rightarrow> k (c # b, r))
      else None)"

fun lit_ci :: "string \<Rightarrow> (pos \<Rightarrow> 'a option) \<Rightarrow> pos \<Rightarrow> 'a option" where
  "lit_ci [] k p = k p"
| "lit_ci (x # xs) k p = one (\<lambda>c. lower c = lower x) (lit_ci xs k) p"

definition digits :: "nat \<Rightarrow> (pos \<Rightarrow> 'a option) \<Rightarrow> pos \<Rightarrow> 'a option" where
  "digits n k = (one is_digit ^^ n) k"

definition is_sep :: "char \<Rightarrow> bool" where
  "is_sep c = (is_space c \<or> c = CHR ''-'')"

definition is_colon_space :: "char \<Rightarrow> bool" where
  "is_colon_space c = (c = CHR '':'' \<or> is_space c)"

text \<open>
  Each pattern returns the position where the reported group starts and the position
  where the match ends: \<open>match.group()\<close> for the card and SSN patterns, \<open>match.group(1)\<close>
  for the password patterns (whose group ends where the match ends).
\<close>

definition cc_pattern :: "pos \<Rightarrow> (pos \<times> pos) option" where
  "cc_pattern p =
     wordb (digits 4 (opt_one is_sep (digits 4 (opt_one is_sep (digits 4 (opt_one is_sep
       (digits 4 (wordb (\<lambda>e. Some (p, e)))))))))) p"

definition ssn_pattern :: "pos \<Rightarrow> (pos \<times> pos) option" where
  "ssn_pattern p =
     wordb (digits 3 (one (\<lambda>c. c = CHR ''-'') (digits 2 (one (\<lambda>c. c = CHR ''-'')
       (digits 4 (wordb (\<lambda>e. Some (p, e)))))))) p"

definition password_pattern :: "string \<Rightarrow> pos \<Rightarrow> (pos \<times> pos) option" where
  "password_pattern kw p =
     lit_ci kw (many1 is_colon_space
       (\<lambda>g. many1 (\<lambda>c. \<not> is_space c) (\<lambda>e. Some (g, e)) g)) p"

definition between :: "pos \<Rightarrow> pos \<Rightarrow> string" where
  "between g e = take (length (snd g) - length (snd e)) (snd g)"

text \<open>
  \<open>re.finditer\<close>: the matches from left to right, not overlapping. After a match the
  scan goes on where it ended; where no match starts, one character further. (None of
  the patterns matches the empty string; the scan of the model then moves one character.)
\<close>

function finditer :: "(pos \<Rightarrow> (pos \<times> pos) option) \<Rightarrow> pos \<Rightarrow> string list" where
  "finditer m p =
     (case m p of
        Some (g, e) \<Rightarrow>
          between g e #
            (if length (snd e) < length (snd p) then finditer m e
             else (case snd p of [] \<Rightarrow> [] | c # r \<Rightarrow> finditer m (c # fst p, r)))
      | None \<Rightarrow> (case snd p of [] \<Rightarrow> [] | c # r \<Rightarrow> finditer m (c # fst p, r)))"
  by pat_completeness auto
termination
  by (relation "measure (\<lambda>(m, p). length (snd p))") auto

declare finditer.simps [simp del]

text \<open>\<open>str.replace(old, new)\<close>: every occurrence, left to right, not overlapping.\<close>

function replace :: "string \<Rightarrow> string \<Rightarrow> string \<Rightarrow> string" where
  "replace old new s =
     (if old = [] then new @ concat (map (\<lambda>c. c # new) s)
      else if s = [] then []
      else if take (length old) s = old then new @ replace old new (drop (length old) s)
      else hd s # replace old new (tl s))"
  by pat_completeness auto
termination
  by (relation "measure (\<lambda>(old, new, s). length s)") auto

declare replace.simps [simp del]

function str_nat :: "nat \<Rightarrow> string" where
  "str_nat n = (if n < 10 then [''0123456789'' ! n]
                else str_nat (n div 10) @ [''0123456789'' ! (n mod 10)])"
  by pat_completeness auto
termination
  by (relation "measure id") auto

declare str_nat.simps [simp del]

section \<open>The sensitive-data masker (claude\_service.py)\<close>

text \<open>
  The token map is a Python dict: insertion-ordered, one entry per key. Assigning to a
  key that is present keeps its place.
\<close>

type_synonym mapping = "(string \<times> string) list"

definition dict_set :: "'k \<Rightarrow> 'v \<Rightarrow> ('k \<times> 'v) list \<Rightarrow> ('k \<times> 'v) list" where
  "dict_set k v d =
     (if k \<in> set (map fst d) then map (\<lambda>kv. if fst kv = k then (k, v) else kv) d
      else d @ [(k, v)])"

text \<open>One \<open>for match in re.finditer(...)\<close> loop of \<open>mask_sensitive_data\<close>.\<close>

fun mask_matches :: "string \<Rightarrow> string list \<Rightarrow> string \<times> mapping \<Rightarrow> string \<times> mapping" where
  "mask_matches tag [] acc = acc"
| "mask_matches tag (g # gs) acc =
     (let masked = ''['' @ tag @ ''_'' @ str_nat (length (snd acc)) @ '']''
      in mask_matches tag gs (replace g masked (fst acc), dict_set masked g (snd acc)))"

definition password_patterns :: "string list" where
  "password_patterns = [''password'', ''pwd'', ''pass'']"

definition mask_sensitive_data :: "string \<Rightarrow> string \<times> mapping" where
  "mask_sensitive_data text =
     (let acc = (text, []);
          acc = mask_matches ''CARD'' (finditer cc_pattern ([], text)) acc;
          acc = mask_matches ''SSN'' (finditer ssn_pattern ([], text)) acc
      in fold (\<lambda>kw. mask_matches ''PASSWORD'' (finditer (password_pattern kw) ([], text)))
           password_patterns acc)"

definition unmask_sensitive_data :: "string \<Rightarrow> mapping \<Rightarrow> string" where
  "unmask_sensitive_data text mapping =
     fold (\<lambda>kv result. replace (fst kv) (snd kv) result) mapping text"

definition strip :: "string \<Rightarrow> string" where
  "strip s = rev (dropWhile is_space (rev (dropWhile is_space s)))"

section \<open>Values, exceptions and the data model (models.py)\<close>

text \<open>
  What \<open>json.loads\<close> returns. A number is a real in the range of a \<open>float\<close>: \<open>int\<close> and
  finite \<open>float\<close> values are not told apart, and \<open>NaN\<close>, the infinities and the integers
  beyond that range are left out. An object is a dict.
\<close>

datatype json =
    JNull
  | JBool bool
  | JNum real
  | JStr string
  | JArr "json list"
  | JObj "(string \<times> json) list"

datatype exn =
    JSONDecodeError
  | KeyError string
  | TypeError
  | AttributeError
  | DoesNotExist
  | APIError string
  | ValueError
  | ValidationError
  | IntegrityError
  | OverflowError
  | SMTPAuthenticationError
  | SMTPException string
  | Exception string

text \<open>\<open>d[k]\<close>: a missing key raises \<open>KeyError\<close>, a value that is no dict \<open>TypeError\<close>.\<close>

definition getitem :: "json \<Rightarrow> string \<Rightarrow> exn + json" where
  "getitem v k =
     (case v of
        JObj d \<Rightarrow> (case map_of d k of None \<Rightarrow> Inl (KeyError k) | Some x \<Rightarrow> Inr x)
      | _ \<Rightarrow> Inl TypeError)"

text \<open>\<open>d.get(k, default)\<close>: a value that is no dict has no \<open>get\<close>.\<close>

definition get_default :: "json \<Rightarrow> string \<Rightarrow> json \<Rightarrow> exn + json" where
  "get_default v k dflt =
     (case v of
        JObj d \<Rightarrow> (case map_of d k of None \<Rightarrow> Inr dflt | Some x \<Rightarrow> Inr x)
      | _ \<Rightarrow> Inl AttributeError)"

definition setitem :: "json \<Rightarrow> string \<Rightarrow> json \<Rightarrow> json" where
  "setitem v k x = (case v of JObj d \<Rightarrow> JObj (dict_set k x d) | _ \<Rightarrow> v)"

text \<open>Python's truth value of an object.\<close>

fun truthy :: "json \<Rightarrow> bool" where
  "truthy JNull = False"
| "truthy (JBool b) = b"
| "truthy (JNum r) = (r \<noteq> 0)"
| "truthy (JStr s) = (s \<noteq> [])"
| "truthy (JArr xs) = (xs \<noteq> [])"
| "truthy (JObj d) = (d \<noteq> [])"

text \<open>
  \<open>value >= threshold\<close> against a float: numbers compare, \<open>True\<close> and \<open>False\<close> count as
  1 and 0, every other value raises \<open>TypeError\<close>.
\<close>

definition ge_float :: "json \<Rightarrow> real \<Rightarrow> exn + bool" where
  "ge_float v t =
     (case v of
        JNum r \<Rightarrow> Inr (t \<le> r)
      | JBool b \<Rightarrow> Inr (t \<le> (if b then 1 else 0))
      | _ \<Rightarrow> Inl TypeError)"

datatype email_status = New | Processing | Pending_review | Replied | Escalated | Closed | Spam

datatype reply_status = Draft | Pending_approval | Approved | Sent | Rejected

datatype log_status = Started | Completed | Failed

record email_category =
  cat_id :: nat
  cat_name :: string

record knowledge_base =
  kb_id :: nat
  kb_category :: nat
  title :: string
  content :: string
  use_count :: int
  is_active :: bool

text \<open>
  The fields of \<open>Email\<close> that the pipeline reads or writes; timestamps are left out.
  The fields filled from the classification hold the value the classification has
  under that key, as the Python object does. Whether the database takes the value is
  checked when the object is saved (see the field checks below); the conversion that
  the ORM applies to a value it takes (a number in a text column is stored as its
  text) is not modelled.
\<close>

record email =
  email_id :: nat
  message_id :: string
  from_email :: string
  from_name :: string
  subject :: string
  body :: string
  status :: email_status
  category :: "nat option"
  priority :: json
  ai_sentiment :: json
  ai_classification_confidence :: json
  requires_escalation :: json
  escalation_reason :: json
  ai_extracted_info :: json

record email_reply =
  reply_id :: nat
  reply_email :: nat
  reply_body :: string
  reply_source :: string
  reply_status :: reply_status
  ai_confidence :: json
  knowledge_base_articles :: "nat list"

record email_processing_log =
  log_email :: nat
  step :: string
  log_status :: log_status
  details :: json
  error_message :: "exn option"

text \<open>
  A request to the reasoning service: the parts of the prompt that vary. For a
  classification, the configured category names, the subject and the masked body; for
  a reply, the category, the knowledge-base context (title and content of each article),
  the subject and the masked body.
\<close>

datatype request =
    ClassifyRequest "string list" string string
  | ReplyRequest json "(string \<times> string) list" string string

record smtp_message =
  mail_to :: string
  mail_subject :: string
  mail_body :: string

text \<open>
  The collaborators and the settings: the reasoning service (it raises, or returns the
  text of the response), \<open>json.loads\<close>, Python's \<open>str\<close> on a value that is no string,
  whether Python's \<open>float\<close> accepts a string, the SMTP server (\<open>None\<close>: the message was
  accepted) and \<open>settings.EMAIL_AUTO_REPLY_THRESHOLD\<close>.
\<close>

record env =
  messages_create :: "request \<Rightarrow> exn + string"
  json_loads :: "string \<Rightarrow> exn + json"
  py_str :: "json \<Rightarrow> string"
  py_float :: "string \<Rightarrow> bool"
  smtp_send :: "smtp_message \<Rightarrow> exn option"
  auto_reply_threshold :: real

text \<open>
  The state: the tables of the database, and what has left the process so far: the
  requests sent to the reasoning service, the messages handed to the SMTP server, and
  the email ids queued for \<open>send_escalation_notification_task\<close>.
\<close>

record world =
  emails :: "email list"
  replies :: "email_reply list"
  kb_articles :: "knowledge_base list"
  categories :: "email_category list"
  processing_logs :: "email_processing_log list"
  api_calls :: "request list"
  smtp_calls :: "smtp_message list"
  notifications :: "nat list"

definition get_email :: "nat \<Rightarrow> world \<Rightarrow> exn + email" where
  "get_email i w =
     (case find (\<lambda>e. email_id e = i) (emails w) of None \<Rightarrow> Inl DoesNotExist | Some e \<Rightarrow> Inr e)"

text \<open>\<open>obj.save()\<close> writes the object over the row with its primary key.\<close>

definition save_email :: "email \<Rightarrow> world \<Rightarrow> world" where
  "save_email e w =
     w\<lparr>emails := map (\<lambda>x. if email_id x = email_id e then e else x) (emails w)\<rparr>"

definition save_reply :: "email_reply \<Rightarrow> world \<Rightarrow> world" where
  "save_reply r w =
     w\<lparr>replies := map (\<lambda>x. if reply_id x = reply_id r then r else x) (replies w)\<rparr>"

definition save_article :: "knowledge_base \<Rightarrow> world \<Rightarrow> world" where
  "save_article a w =
     w\<lparr>kb_articles := map (\<lambda>x. if kb_id x = kb_id a then a else x) (kb_articles w)\<rparr>"

definition log_create ::
  "nat \<Rightarrow> string \<Rightarrow> log_status \<Rightarrow> json \<Rightarrow> exn option \<Rightarrow> world \<Rightarrow> world" where
  "log_create i s st d err w =
     w\<lparr>processing_logs := processing_logs w @
          [\<lparr>log_email = i, step = s, log_status = st, details = d, error_message = err\<rparr>]\<rparr>"

definition fresh_id :: "nat list \<Rightarrow> nat" where
  "fresh_id ids = Suc (fold max ids 0)"

subsection \<open>What the columns refuse\<close>

text \<open>
  Saving an object prepares the value of each field, in the order of the fields, and
  then writes the row. The settings module is not among the sources; the database is
  taken to be SQLite, the default of the framework. A \<open>FloatField\<close> applies \<open>float\<close> to
  a value other than \<open>None\<close>: a string that \<open>float\<close> does not accept raises \<open>ValueError\<close>,
  a list or a dict \<open>TypeError\<close>, and an integer too large for a float \<open>OverflowError\<close>.
  A \<open>BooleanField\<close> takes \<open>True\<close>, \<open>False\<close>, the numbers equal to them and six strings;
  every other value but \<open>None\<close> raises \<open>ValidationError\<close>. A \<open>CharField\<close> or \<open>TextField\<close>
  takes every value (its length is not enforced). When the row is written, \<open>None\<close> in
  a column that is not nullable raises \<open>IntegrityError\<close>, and an integer above the
  largest that the database stores raises \<open>OverflowError\<close>.
\<close>

text \<open>
  The least magnitude that \<open>float\<close> refuses: an integer below it rounds to a float, and
  every float is below it.
\<close>

definition float_limit :: real where
  "float_limit = 2 ^ 1024 - 2 ^ 970"

definition float_field :: "env \<Rightarrow> json \<Rightarrow> exn option" where
  "float_field env v =
     (case v of
        JStr s \<Rightarrow> if py_float env s then None else Some ValueError
      | JNum r \<Rightarrow> if float_limit \<le> \<bar>r\<bar> then Some OverflowError else None
      | JArr _ \<Rightarrow> Some TypeError
      | JObj _ \<Rightarrow> Some TypeError
      | _ \<Rightarrow> None)"

definition boolean_field :: "json \<Rightarrow> exn option" where
  "boolean_field v =
     (case v of
        JNull \<Rightarrow> None
      | JBool _ \<Rightarrow> None
      | JNum r \<Rightarrow> if r = 0 \<or> r = 1 then None else Some ValidationError
      | JStr s \<Rightarrow> if s \<in> set [''t'', ''True'', ''1'', ''f'', ''False'', ''0''] then None
                 else Some ValidationError
      | _ \<Rightarrow> Some ValidationError)"

text \<open>
  \<open>Email.save()\<close> with the fields that the classification fills: the confidence is a
  nullable \<open>FloatField\<close>, the escalation flag a \<open>BooleanField\<close>; priority, extracted
  info, escalation flag and escalation reason are not nullable; the sentiment is.
\<close>

definition check_email :: "env \<Rightarrow> email \<Rightarrow> exn option" where
  "check_email env e =
     (case float_field env (ai_classification_confidence e) of
        Some x \<Rightarrow> Some x
      | None \<Rightarrow>
          (case boolean_field (requires_escalation e) of
             Some x \<Rightarrow> Some x
           | None \<Rightarrow>
               if priority e = JNull \<or> ai_extracted_info e = JNull
                  \<or> requires_escalation e = JNull \<or> escalation_reason e = JNull
               then Some IntegrityError else None))"

definition max_integer :: int where
  "max_integer = 9223372036854775807"

section \<open>The classification and generation client (claude\_service.py)\<close>

definition strip_fences :: "string \<Rightarrow> string" where
  "strip_fences t =
     strip (replace (CHR 0x0A # ''```'') [] (replace (''```json'' @ [CHR 0x0A]) [] (strip t)))"

definition default_classification :: json where
  "default_classification =
     JObj [(''category'', JStr ''general''),
           (''confidence'', JNum 0.5),
           (''priority'', JStr ''medium''),
           (''sentiment'', JStr ''neutral''),
           (''requires_escalation'', JBool False),
           (''escalation_reason'', JStr []),
           (''extracted_info'', JObj [(''issue_summary'', JStr ''Classification failed'')])]"

text \<open>
  \<open>classify_email\<close>. The log line after parsing reads \<open>result['category']\<close> and
  \<open>result['confidence']\<close>, so a parsed value without them raises. Only
  \<open>JSONDecodeError\<close> gives the default classification; every other exception is raised
  again.
\<close>

definition classify_email :: "env \<Rightarrow> string \<Rightarrow> string \<Rightarrow> world \<Rightarrow> (exn + json) \<times> world" where
  "classify_email env subj bdy w =
     (let masked_body = fst (mask_sensitive_data bdy);
          req = ClassifyRequest (map cat_name (categories w)) subj masked_body;
          w = w\<lparr>api_calls := api_calls w @ [req]\<rparr>
      in case messages_create env req of
           Inl e \<Rightarrow> (Inl e, w)
         | Inr response_text \<Rightarrow>
             (case json_loads env (strip_fences response_text) of
                Inl JSONDecodeError \<Rightarrow> (Inr default_classification, w)
              | Inl e \<Rightarrow> (Inl e, w)
              | Inr result \<Rightarrow>
                  (case getitem result ''category'' of
                     Inl e \<Rightarrow> (Inl e, w)
                   | Inr _ \<Rightarrow>
                       (case getitem result ''confidence'' of
                          Inl e \<Rightarrow> (Inl e, w)
                        | Inr _ \<Rightarrow> (Inr result, w)))))"

definition format_value :: "env \<Rightarrow> json \<Rightarrow> string" where
  "format_value env v = (case v of JStr s \<Rightarrow> s | _ \<Rightarrow> py_str env v)"

text \<open>
  \<open>unmask_sensitive_data\<close> on the parsed reply: the loop calls \<open>replace\<close> on it once
  for each token, which a value that is no string does not have.
\<close>

definition unmask_value :: "json \<Rightarrow> mapping \<Rightarrow> exn + json" where
  "unmask_value v mapping =
     (case v of
        JStr s \<Rightarrow> Inr (JStr (unmask_sensitive_data s mapping))
      | _ \<Rightarrow> if mapping = [] then Inr v else Inl AttributeError)"

text \<open>
  \<open>generate_reply\<close>. Both handlers raise the exception again: nothing is defaulted.
\<close>

definition generate_reply ::
  "env \<Rightarrow> string \<Rightarrow> string \<Rightarrow> json \<Rightarrow> json \<Rightarrow> knowledge_base list \<Rightarrow> world
     \<Rightarrow> (exn + json) \<times> world" where
  "generate_reply env subj bdy cat customer_name knowledge_articles w =
     (let masked = mask_sensitive_data bdy;
          kb_context = map (\<lambda>a. (title a, content a)) (take 5 knowledge_articles);
          customer_greeting =
            (if truthy customer_name then ''Dear '' @ format_value env customer_name @ '',''
             else ''Hello,'');
          req = ReplyRequest cat kb_context subj (fst masked);
          w = w\<lparr>api_calls := api_calls w @ [req]\<rparr>
      in case messages_create env req of
           Inl e \<Rightarrow> (Inl e, w)
         | Inr response_text \<Rightarrow>
             (case json_loads env (strip_fences response_text) of
                Inl e \<Rightarrow> (Inl e, w)
              | Inr result \<Rightarrow>
                  (case getitem result ''reply'' of
                     Inl e \<Rightarrow> (Inl e, w)
                   | Inr r \<Rightarrow>
                       (case unmask_value r (snd masked) of
                          Inl e \<Rightarrow> (Inl e, w)
                        | Inr r \<Rightarrow>
                            (let result = setitem result ''reply''
                                   (JStr (customer_greeting @ [CHR 0x0A, CHR 0x0A]
                                            @ format_value env r))
                             in case getitem result ''confidence'' of
                                  Inl e \<Rightarrow> (Inl e, w)
                                | Inr _ \<Rightarrow> (Inr result, w))))))"

section \<open>The sender (email\_sender.py)\<close>

text \<open>
  \<open>send_reply\<close>: the message goes to the SMTP server; only when the server has accepted
  it are the reply marked sent and the email replied. The two SMTP exceptions are
  raised again as plain exceptions, every other one as it is.
\<close>

definition send_reply :: "env \<Rightarrow> email \<Rightarrow> email_reply \<Rightarrow> world \<Rightarrow> (exn + bool) \<times> world" where
  "send_reply env email_obj reply_obj w =
     (let msg = \<lparr>mail_to = from_email email_obj,
                  mail_subject = ''Re: '' @ subject email_obj,
                  mail_body = reply_body reply_obj\<rparr>;
          w = w\<lparr>smtp_calls := smtp_calls w @ [msg]\<rparr>
      in case smtp_send env msg of
           Some SMTPAuthenticationError \<Rightarrow>
             (Inl (Exception ''Email authentication failed. Please check credentials.''), w)
         | Some (SMTPException m) \<Rightarrow> (Inl (Exception (''Failed to send email: '' @ m)), w)
         | Some e \<Rightarrow> (Inl e, w)
         | None \<Rightarrow>
             (let w = save_reply (reply_obj\<lparr>reply_status := Sent\<rparr>) w;
                  w = save_email (email_obj\<lparr>status := Replied\<rparr>) w
              in (Inr True, w)))"

section \<open>The pipeline (tasks.py)\<close>

text \<open>
  \<open>EmailCategory.objects.filter(name=...).first()\<close>. The name is compared with the
  classified category; \<open>None\<close> matches no row, and a value that is no string is
  compared as its text.
\<close>

definition find_category :: "env \<Rightarrow> json \<Rightarrow> world \<Rightarrow> email_category option" where
  "find_category env name w =
     (case name of
        JNull \<Rightarrow> None
      | JStr n \<Rightarrow> find (\<lambda>c. cat_name c = n) (categories w)
      | _ \<Rightarrow> find (\<lambda>c. cat_name c = py_str env name) (categories w))"

text \<open>
  Lines 55 to 95 of \<open>process_email_task\<close>: the email is read and its status set to
  processing, whatever it was; the email is classified and the classification stored,
  unless a column refuses a value (line 84). The result is the email object, the
  classification and the category row with the classified name, if any. (Saving an
  object whose values were read from the database or have been saved before, with
  another status, is not refused: lines 60, 194, 200 and 230.)
\<close>

definition classification_step ::
  "env \<Rightarrow> nat \<Rightarrow> world \<Rightarrow> (exn + email \<times> json \<times> email_category option) \<times> world" where
  "classification_step env i w =
     (case get_email i w of Inl e \<Rightarrow> (Inl e, w) | Inr email0 \<Rightarrow>
      let email = email0\<lparr>status := Processing\<rparr>;
          w = save_email email w;
          w = log_create (email_id email) ''classification'' Started (JObj []) None w
      in case classify_email env (subject email) (body email) w of
           (Inl e, w) \<Rightarrow> (Inl e, w)
         | (Inr classification, w) \<Rightarrow>
         (case getitem classification ''category'' of Inl e \<Rightarrow> (Inl e, w) | Inr cat \<Rightarrow>
         (case getitem classification ''priority'' of Inl e \<Rightarrow> (Inl e, w) | Inr prio \<Rightarrow>
         (case getitem classification ''sentiment'' of Inl e \<Rightarrow> (Inl e, w) | Inr sent \<Rightarrow>
         (case getitem classification ''confidence'' of Inl e \<Rightarrow> (Inl e, w) | Inr conf \<Rightarrow>
         (case getitem classification ''requires_escalation'' of Inl e \<Rightarrow> (Inl e, w) | Inr esc \<Rightarrow>
         (case get_default classification ''escalation_reason'' (JStr []) of
            Inl e \<Rightarrow> (Inl e, w) | Inr reason \<Rightarrow>
         (case get_default classification ''extracted_info'' (JObj []) of
            Inl e \<Rightarrow> (Inl e, w) | Inr info \<Rightarrow>
            (let cat_row = find_category env cat w;
                 email = email\<lparr>category := map_option cat_id cat_row,
                                priority := prio,
                                ai_sentiment := sent,
                                ai_classification_confidence := conf,
                                requires_escalation := esc,
                                escalation_reason := reason,
                                ai_extracted_info := info\<rparr>
             in case check_email env email of
                  Some e \<Rightarrow> (Inl e, w)
                | None \<Rightarrow>
                    (let w = save_email email w;
                         w = log_create (email_id email) ''classification'' Completed
                               classification None w
                     in (Inr (email, classification, cat_row), w)))))))))))"

text \<open>
  The knowledge selection of lines 110 to 117: the active articles of the category, by
  descending use count, at most three. (Among equal counts the database is free; the
  model keeps the order of the table.)
\<close>

definition select_articles :: "email_category option \<Rightarrow> world \<Rightarrow> knowledge_base list" where
  "select_articles cat_row w =
     (case cat_row of
        None \<Rightarrow> []
      | Some c \<Rightarrow>
          take 3 (sort_key (\<lambda>a. - use_count a)
                    (filter (\<lambda>a. kb_category a = cat_id c \<and> is_active a) (kb_articles w))))"

text \<open>
  Lines 144 to 146: each selected article in turn is saved with its use count plus
  one; a count that the database cannot store raises, and the loop stops there.
\<close>

fun increment_use_counts :: "knowledge_base list \<Rightarrow> world \<Rightarrow> (exn + unit) \<times> world" where
  "increment_use_counts [] w = (Inr (), w)"
| "increment_use_counts (article # arts) w =
     (if max_integer < use_count article + 1 then (Inl OverflowError, w)
      else increment_use_counts arts
             (save_article (article\<lparr>use_count := use_count article + 1\<rparr>) w))"

text \<open>
  Lines 162 to 195: the draft is approved and handed to the sender when the confidence
  reaches the threshold and no review is asked for; an exception of the sender is
  caught and logged. Otherwise the email is marked for review; the draft is not touched.
\<close>

definition routing_step ::
  "env \<Rightarrow> email \<Rightarrow> email_reply \<Rightarrow> json \<Rightarrow> json \<Rightarrow> world \<Rightarrow> (exn + unit) \<times> world" where
  "routing_step env email reply conf review w =
     (case ge_float conf (auto_reply_threshold env) of
        Inl e \<Rightarrow> (Inl e, w)
      | Inr high \<Rightarrow>
          if high \<and> \<not> truthy review then
            (let reply = reply\<lparr>reply_status := Approved\<rparr>;
                 w = save_reply reply w
             in case send_reply env email reply w of
                  (Inr _, w) \<Rightarrow>
                    (Inr (), log_create (email_id email) ''auto_send'' Completed
                               (JObj [(''reply_id'', JNum (real (reply_id reply)))]) None w)
                | (Inl send_error, w) \<Rightarrow>
                    (Inr (), log_create (email_id email) ''auto_send'' Failed (JObj [])
                               (Some send_error) w))
          else (Inr (), save_email (email\<lparr>status := Pending_review\<rparr>) w))"

text \<open>
  Lines 99 to 129: the knowledge selection and the generation call. The result is the
  reply data and the selected articles.
\<close>

definition generation_step ::
  "env \<Rightarrow> email \<Rightarrow> json \<Rightarrow> email_category option \<Rightarrow> world
     \<Rightarrow> (exn + json \<times> knowledge_base list) \<times> world" where
  "generation_step env email classification cat_row w =
     (let w = log_create (email_id email) ''reply_generation'' Started (JObj []) None w;
          arts = select_articles cat_row w
      in case get_default (ai_extracted_info email) ''customer_name'' (JStr (from_name email)) of
           Inl e \<Rightarrow> (Inl e, w) | Inr customer_name \<Rightarrow>
         (case getitem classification ''category'' of Inl e \<Rightarrow> (Inl e, w) | Inr cat \<Rightarrow>
         (case generate_reply env (subject email) (body email) cat customer_name arts w of
            (Inl e, w) \<Rightarrow> (Inl e, w)
          | (Inr reply_data, w) \<Rightarrow> (Inr (reply_data, arts), w))))"

text \<open>
  Lines 131 to 195: the draft is created (pending approval when the reply data ask for
  a review, a plain draft otherwise), unless its confidence is refused by the column or
  it has no body; the articles are linked and counted, and the draft is routed.
\<close>

definition draft_step ::
  "env \<Rightarrow> email \<Rightarrow> json \<Rightarrow> knowledge_base list \<Rightarrow> world \<Rightarrow> (exn + unit) \<times> world" where
  "draft_step env email reply_data arts w =
     (case getitem reply_data ''reply'' of Inl e \<Rightarrow> (Inl e, w) | Inr text \<Rightarrow>
     (case getitem reply_data ''confidence'' of Inl e \<Rightarrow> (Inl e, w) | Inr conf \<Rightarrow>
     (case getitem reply_data ''requires_review'' of Inl e \<Rightarrow> (Inl e, w) | Inr review \<Rightarrow>
     (case float_field env conf of Some e \<Rightarrow> (Inl e, w) | None \<Rightarrow>
      if text = JNull then (Inl IntegrityError, w) else
        (let reply = \<lparr>reply_id = fresh_id (map reply_id (replies w)),
                      reply_email = email_id email,
                      reply_body = format_value env text,
                      reply_source = ''ai'',
                      reply_status = (if truthy review then Pending_approval else Draft),
                      ai_confidence = conf,
                      knowledge_base_articles = []\<rparr>;
             w = w\<lparr>replies := replies w @ [reply]\<rparr>;
             reply = (if arts = [] then reply
                      else reply\<lparr>knowledge_base_articles := map kb_id arts\<rparr>)
         in case (if arts = [] then (Inr (), w)
                  else increment_use_counts arts (save_reply reply w)) of
              (Inl e, w) \<Rightarrow> (Inl e, w)
            | (Inr _, w) \<Rightarrow>
                (case get_default reply_data ''used_articles'' (JArr []) of
                   Inl e \<Rightarrow> (Inl e, w)
                 | Inr used \<Rightarrow>
                     routing_step env email reply conf review
                       (log_create (email_id email) ''reply_generation'' Completed
                          (JObj [(''confidence'', conf), (''requires_review'', review),
                                 (''used_articles'', used)]) None w)))))))"

text \<open>Lines 98 to 195: the branch taken when the email does not require escalation.\<close>

definition reply_step ::
  "env \<Rightarrow> email \<Rightarrow> json \<Rightarrow> email_category option \<Rightarrow> world \<Rightarrow> (exn + unit) \<times> world" where
  "reply_step env email classification cat_row w =
     (case generation_step env email classification cat_row w of
        (Inl e, w) \<Rightarrow> (Inl e, w)
      | (Inr (reply_data, arts), w) \<Rightarrow> draft_step env email reply_data arts w)"

text \<open>Lines 197 to 204: the branch taken when the email requires escalation.\<close>

definition escalation_step :: "email \<Rightarrow> world \<Rightarrow> world" where
  "escalation_step email w =
     (let w = save_email (email\<lparr>status := Escalated\<rparr>) w
      in w\<lparr>notifications := notifications w @ [email_id email]\<rparr>)"

datatype task_result = Processed nat json json | Email_not_found

text \<open>The body of the \<open>try\<close> statement, lines 55 to 211.\<close>

definition try_body :: "env \<Rightarrow> nat \<Rightarrow> world \<Rightarrow> (exn + task_result) \<times> world" where
  "try_body env i w =
     (case classification_step env i w of
        (Inl e, w) \<Rightarrow> (Inl e, w)
      | (Inr (email, classification, cat_row), w) \<Rightarrow>
          (case getitem classification ''category'' of Inl e \<Rightarrow> (Inl e, w) | Inr cat \<Rightarrow>
            if \<not> truthy (requires_escalation email) then
              (case reply_step env email classification cat_row w of
                 (Inl e, w) \<Rightarrow> (Inl e, w)
               | (Inr _, w) \<Rightarrow> (Inr (Processed i cat (requires_escalation email)), w))
            else (Inr (Processed i cat (requires_escalation email)),
                  escalation_step email w)))"

text \<open>
  Celery's \<open>self.retry(exc=e, countdown=c)\<close> in a task with \<open>max_retries=3\<close>, run with
  \<open>self.request.retries = n\<close>: while the next retry number is within the maximum the
  task is queued again after the countdown (and \<open>Retry\<close> is raised); beyond it, the
  exception itself is raised and the task is not run again.
\<close>

datatype outcome = Returned task_result | Retry nat exn | Raised exn

definition max_retries :: nat where
  "max_retries = 3"

definition retry :: "nat \<Rightarrow> exn \<Rightarrow> nat \<Rightarrow> outcome" where
  "retry n e countdown = (if max_retries < n + 1 then Raised e else Retry countdown e)"

text \<open>The handler of lines 217 to 232: the failure is logged and the status reset.\<close>

definition log_failure :: "nat \<Rightarrow> exn \<Rightarrow> world \<Rightarrow> world" where
  "log_failure i e w =
     (case get_email i w of
        Inl _ \<Rightarrow> w
      | Inr email \<Rightarrow>
          (let w = log_create (email_id email) ''processing'' Failed (JObj []) (Some e) w
           in save_email (email\<lparr>status := New\<rparr>) w))"

definition process_email_task :: "env \<Rightarrow> nat \<Rightarrow> nat \<Rightarrow> world \<Rightarrow> outcome \<times> world" where
  "process_email_task env n i w =
     (case try_body env i w of
        (Inr r, w) \<Rightarrow> (Returned r, w)
      | (Inl DoesNotExist, w) \<Rightarrow> (Returned Email_not_found, w)
      | (Inl e, w) \<Rightarrow> (retry n e (60 * 2 ^ n), log_failure i e w))"

text \<open>
  The worker: it runs the task, and runs it again for each retry the task has queued,
  with the retry number one higher. \<open>envs k\<close> is what the collaborators do during the
  run with retry number \<open>k\<close>. The result is the list of countdowns of the retries, the
  outcome of the last run and the state after it.
\<close>

function worker :: "(nat \<Rightarrow> env) \<Rightarrow> nat \<Rightarrow> nat \<Rightarrow> world \<Rightarrow> nat list \<times> outcome \<times> world" where
  "worker envs n i w =
     (case process_email_task (envs n) n i w of
        (Retry countdown e, w') \<Rightarrow>
          if n < max_retries
          then (case worker envs (Suc n) i w' of (cs, r) \<Rightarrow> (countdown # cs, r))
          else ([], Retry countdown e, w')
      | (out, w') \<Rightarrow> ([], out, w'))"
  by pat_completeness auto
termination
  by (relation "measure (\<lambda>(envs, n, i, w). max_retries - n)") auto

declare worker.simps [simp del]

text \<open>The manual action \<open>reprocess\<close> of views.py queues the same task, with no argument but the id.\<close>

definition reprocess :: "env \<Rightarrow> nat \<Rightarrow> world \<Rightarrow> outcome \<times> world" where
  "reprocess env i w = process_email_task env 0 i w"

section \<open>Ingestion (email\_fetcher.py)\<close>

text \<open>
  A fetched message: its \<open>Message-ID\<close> header (empty when absent), and what decoding the
  other headers and the body gives: the fields of the new row, or the exception raised.
\<close>

record parsed_fields =
  pf_from_email :: string
  pf_from_name :: string
  pf_subject :: string
  pf_body :: string

record raw_message =
  raw_message_id :: string
  raw_fields :: "exn + parsed_fields"

definition parse_email :: "raw_message \<Rightarrow> world \<Rightarrow> (exn + email option) \<times> world" where
  "parse_email data w =
     (if \<exists>e \<in> set (emails w). message_id e = raw_message_id data then (Inr None, w)
      else case raw_fields data of
             Inl e \<Rightarrow> (Inl e, w)
           | Inr f \<Rightarrow>
               (let email_obj = \<lparr>email_id = fresh_id (map email_id (emails w)),
                                 message_id = raw_message_id data,
                                 from_email = pf_from_email f,
                                 from_name = pf_from_name f,
                                 subject = pf_subject f,
                                 body = pf_body f,
                                 status = New,
                                 category = None,
                                 priority = JStr ''medium'',
                                 ai_sentiment = JNull,
                                 ai_classification_confidence = JNull,
                                 requires_escalation = JBool False,
                                 escalation_reason = JStr [],
                                 ai_extracted_info = JObj []\<rparr>
                in (Inr (Some email_obj), w\<lparr>emails := emails w @ [email_obj]\<rparr>)))"

section \<open>What the properties are stated about\<close>

text \<open>The status of the stored email with the given id.\<close>

definition status_of :: "nat \<Rightarrow> world \<Rightarrow> email_status option" where
  "status_of i w = (case get_email i w of Inl _ \<Rightarrow> None | Inr e \<Rightarrow> Some (status e))"

text \<open>
  Whether the classification of the email asks for escalation: the truth value that
  line 98 tests. \<open>None\<close> when the email is missing, the classification raises or a
  column refuses one of its values, so that line 98 is not reached.
\<close>

definition escalation_required :: "env \<Rightarrow> nat \<Rightarrow> world \<Rightarrow> bool option" where
  "escalation_required env i w =
     (case classification_step env i w of
        (Inl _, _) \<Rightarrow> None
      | (Inr (email, _, _), _) \<Rightarrow> Some (truthy (requires_escalation email)))"

text \<open>
  The reply data that \<open>generate_reply\<close> returns in the pipeline and the articles that
  were selected for it, when the email is classified without escalation, the
  classification is stored and the generation call returns; \<open>None\<close> otherwise.
\<close>

definition generated :: "env \<Rightarrow> nat \<Rightarrow> world \<Rightarrow> (json \<times> knowledge_base list) option" where
  "generated env i w =
     (case classification_step env i w of
        (Inl _, _) \<Rightarrow> None
      | (Inr (email, classification, cat_row), w) \<Rightarrow>
          if truthy (requires_escalation email) then None
          else (case generation_step env email classification cat_row w of
                  (Inl _, _) \<Rightarrow> None
                | (Inr r, _) \<Rightarrow> Some r))"

text \<open>
  The classification that the pipeline gets for the email; \<open>None\<close> when the email is
  missing, the classification raises or its values are refused.
\<close>

definition classification_of :: "env \<Rightarrow> nat \<Rightarrow> world \<Rightarrow> json option" where
  "classification_of env i w =
     (case classification_step env i w of
        (Inl _, _) \<Rightarrow> None
      | (Inr (_, classification, _), _) \<Rightarrow> Some classification)"

text \<open>
  A run of the task has raised when it did not return: it ended in \<open>self.retry\<close>.
\<close>

definition raised :: "outcome \<Rightarrow> bool" where
  "raised out = (case out of Returned _ \<Rightarrow> False | Retry _ _ \<Rightarrow> True | Raised _ \<Rightarrow> True)"

text \<open>
  The state in which the run with retry number \<open>k\<close> starts: the state that the runs
  before it have left.
\<close>

fun run_state :: "(nat \<Rightarrow> env) \<Rightarrow> nat \<Rightarrow> world \<Rightarrow> nat \<Rightarrow> world" where
  "run_state envs i w 0 = w"
| "run_state envs i w (Suc k) =
     snd (process_email_task (envs k) k i (run_state envs i w k))"

text \<open>The failed audit entries of the step \<open>processing\<close> for an email.\<close>

definition failed_entries :: "nat \<Rightarrow> world \<Rightarrow> email_processing_log list" where
  "failed_entries i w =
     filter (\<lambda>l. log_email l = i \<and> step l = ''processing'' \<and> log_status l = Failed)
       (processing_logs w)"

section \<open>Example data\<close>

text \<open>
  One stored email, two categories and some articles; response texts of the reasoning
  service, and \<open>json.loads\<close> as the table of what it returns on these texts.
\<close>

definition ex_email :: "email_status \<Rightarrow> email" where
  \<open>ex_email st =
     \<lparr>email_id = 1, message_id = ''<m1@example.com>'', from_email = ''ann@example.com'',
      from_name = ''Ann'', subject = ''Invoice'', body = ''Please resend my invoice.'',
      status = st, category = None, priority = JStr ''medium'', ai_sentiment = JNull,
      ai_classification_confidence = JNull, requires_escalation = JBool False,
      escalation_reason = JStr [], ai_extracted_info = JObj []\<rparr>\<close>

definition ex_article :: "nat \<Rightarrow> nat \<Rightarrow> int \<Rightarrow> bool \<Rightarrow> knowledge_base" where
  \<open>ex_article k c n act =
     \<lparr>kb_id = k, kb_category = c, title = ''Article'', content = ''Text'',
      use_count = n, is_active = act\<rparr>\<close>

definition ex_world :: "email_status \<Rightarrow> world" where
  \<open>ex_world st =
     \<lparr>emails = [ex_email st], replies = [],
      kb_articles = [ex_article 1 1 5 True, ex_article 2 1 9 True, ex_article 3 1 7 False,
                     ex_article 4 2 2 True, ex_article 5 1 1 True, ex_article 6 1 3 True],
      categories = [\<lparr>cat_id = 1, cat_name = ''billing''\<rparr>, \<lparr>cat_id = 2, cat_name = ''general''\<rparr>],
      processing_logs = [], api_calls = [], smtp_calls = [], notifications = []\<rparr>\<close>

definition text_billing :: string where
  \<open>text_billing = ''{"category": "billing", "confidence": 0.92, "priority": "medium", "sentiment": "neutral", "requires_escalation": false}''\<close>

definition json_billing :: json where
  \<open>json_billing =
     JObj [(''category'', JStr ''billing''), (''confidence'', JNum 0.92),
           (''priority'', JStr ''medium''), (''sentiment'', JStr ''neutral''),
           (''requires_escalation'', JBool False)]\<close>

definition text_legal :: string where
  \<open>text_legal = ''{"category": "billing", "confidence": 0.97, "priority": "urgent", "sentiment": "negative", "requires_escalation": true}''\<close>

definition json_legal :: json where
  \<open>json_legal =
     JObj [(''category'', JStr ''billing''), (''confidence'', JNum 0.97),
           (''priority'', JStr ''urgent''), (''sentiment'', JStr ''negative''),
           (''requires_escalation'', JBool True)]\<close>

definition text_weather :: string where
  \<open>text_weather = ''{"category": "weather", "confidence": 0.9, "priority": "low", "sentiment": "positive", "requires_escalation": false}''\<close>

definition json_weather :: json where
  \<open>json_weather =
     JObj [(''category'', JStr ''weather''), (''confidence'', JNum 0.9),
           (''priority'', JStr ''low''), (''sentiment'', JStr ''positive''),
           (''requires_escalation'', JBool False)]\<close>

definition text_flag :: string where
  \<open>text_flag = ''{"category": "billing", "confidence": 0.97, "priority": "urgent", "sentiment": "negative", "requires_escalation": "yes"}''\<close>

definition json_flag :: json where
  \<open>json_flag =
     JObj [(''category'', JStr ''billing''), (''confidence'', JNum 0.97),
           (''priority'', JStr ''urgent''), (''sentiment'', JStr ''negative''),
           (''requires_escalation'', JStr ''yes'')]\<close>

definition text_high :: string where
  \<open>text_high = ''{"reply": "Your invoice is attached.", "confidence": "high", "requires_review": false}''\<close>

definition json_high :: json where
  \<open>json_high =
     JObj [(''reply'', JStr ''Your invoice is attached.''), (''confidence'', JStr ''high''),
           (''requires_review'', JBool False)]\<close>

definition text_reply :: "string \<Rightarrow> string \<Rightarrow> string" where
  \<open>text_reply conf review =
     ''{"reply": "Your invoice is attached.", "confidence": '' @ conf @ '', "requires_review": ''
       @ review @ ''}''\<close>

definition json_reply :: "real \<Rightarrow> bool \<Rightarrow> json" where
  \<open>json_reply conf review =
     JObj [(''reply'', JStr ''Your invoice is attached.''), (''confidence'', JNum conf),
           (''requires_review'', JBool review)]\<close>

definition text_prose :: string where
  \<open>text_prose = ''I cannot answer that in JSON.''\<close>

definition ex_loads :: "string \<Rightarrow> exn + json" where
  \<open>ex_loads t =
     (case map_of [(text_billing, json_billing), (text_legal, json_legal),
                   (text_weather, json_weather), (text_flag, json_flag),
                   (text_high, json_high),
                   (text_reply ''0.81'' ''false'', json_reply 0.81 False),
                   (text_reply ''0.79'' ''false'', json_reply 0.79 False),
                   (text_reply ''0.95'' ''true'', json_reply 0.95 True)] t of
        Some v \<Rightarrow> Inr v
      | None \<Rightarrow> Inl JSONDecodeError)\<close>

text \<open>
  The collaborators of the examples: the service answers a classification request with
  the first text and a reply request with the second; the SMTP server does \<open>s\<close>; the
  threshold is 0.8. No example formats a value that is no string, and the only string
  of the examples that \<open>float\<close> accepts is \<open>0.9\<close>.
\<close>

definition ex_env :: "exn + string \<Rightarrow> exn + string \<Rightarrow> exn option \<Rightarrow> env" where
  \<open>ex_env c r s =
     \<lparr>messages_create = (\<lambda>req. case req of ClassifyRequest _ _ _ \<Rightarrow> c | ReplyRequest _ _ _ _ \<Rightarrow> r),
      json_loads = ex_loads,
      py_str = (\<lambda>v. []),
      py_float = (\<lambda>s. s = ''0.9''),
      smtp_send = (\<lambda>m. s),
      auto_reply_threshold = 0.8\<rparr>\<close>

text \<open>
  What the pipeline gets from \<open>generate_reply\<close> on the reply texts above (the greeting
  uses the sender's name), and the articles selected for the category billing.
\<close>

definition ex_reply_data :: "real \<Rightarrow> bool \<Rightarrow> json" where
  \<open>ex_reply_data conf review =
     JObj [(''reply'', JStr (''Dear Ann,'' @ [CHR 0x0A, CHR 0x0A] @ ''Your invoice is attached.'')),
           (''confidence'', JNum conf), (''requires_review'', JBool review)]\<close>

definition ex_selected :: "knowledge_base list" where
  \<open>ex_selected = [ex_article 2 1 9 True, ex_article 1 1 5 True, ex_article 6 1 3 True]\<close>


section \<open>How the steps change the state\<close>

lemma save_email_fields [simp]:
  "replies (save_email e w) = replies w"
  "kb_articles (save_email e w) = kb_articles w"
  "categories (save_email e w) = categories w"
  "processing_logs (save_email e w) = processing_logs w"
  "api_calls (save_email e w) = api_calls w"
  "smtp_calls (save_email e w) = smtp_calls w"
  "notifications (save_email e w) = notifications w"
  by (simp_all add: save_email_def)

lemma save_reply_fields [simp]:
  "emails (save_reply r w) = emails w"
  "kb_articles (save_reply r w) = kb_articles w"
  "categories (save_reply r w) = categories w"
  "processing_logs (save_reply r w) = processing_logs w"
  "api_calls (save_reply r w) = api_calls w"
  "smtp_calls (save_reply r w) = smtp_calls w"
  "notifications (save_reply r w) = notifications w"
  by (simp_all add: save_reply_def)

lemma save_article_fields [simp]:
  "emails (save_article a w) = emails w"
  "replies (save_article a w) = replies w"
  "categories (save_article a w) = categories w"
  "processing_logs (save_article a w) = processing_logs w"
  "api_calls (save_article a w) = api_calls w"
  "smtp_calls (save_article a w) = smtp_calls w"
  "notifications (save_article a w) = notifications w"
  by (simp_all add: save_article_def)

lemma log_create_fields [simp]:
  "emails (log_create i s st d err w) = emails w"
  "replies (log_create i s st d err w) = replies w"
  "kb_articles (log_create i s st d err w) = kb_articles w"
  "categories (log_create i s st d err w) = categories w"
  "api_calls (log_create i s st d err w) = api_calls w"
  "smtp_calls (log_create i s st d err w) = smtp_calls w"
  "notifications (log_create i s st d err w) = notifications w"
  "processing_logs (log_create i s st d err w) = processing_logs w @
     [\<lparr>log_email = i, step = s, log_status = st, details = d, error_message = err\<rparr>]"
  by (simp_all add: log_create_def)

lemma increment_use_counts_fields [simp]:
  "emails (snd (increment_use_counts arts w)) = emails w"
  "replies (snd (increment_use_counts arts w)) = replies w"
  "categories (snd (increment_use_counts arts w)) = categories w"
  "processing_logs (snd (increment_use_counts arts w)) = processing_logs w"
  "api_calls (snd (increment_use_counts arts w)) = api_calls w"
  "smtp_calls (snd (increment_use_counts arts w)) = smtp_calls w"
  "notifications (snd (increment_use_counts arts w)) = notifications w"
  by (induction arts arbitrary: w) simp_all

lemma increment_use_counts_ok:
  "\<forall>a \<in> set arts. use_count a < max_integer \<Longrightarrow> fst (increment_use_counts arts w) = Inr ()"
  by (induction arts arbitrary: w) simp_all

lemma find_category_categories:
  "categories w' = categories w \<Longrightarrow> find_category env c w' = find_category env c w"
  by (cases c) (simp_all add: find_category_def)

lemma case_result_Inr:
  "fst p = Inr u \<Longrightarrow> (case p of (Inl e, w) \<Rightarrow> f e w | (Inr v, w) \<Rightarrow> g v w) = g u (snd p)"
  by (cases p) auto

lemma get_email_emails: "emails w' = emails w \<Longrightarrow> get_email i w' = get_email i w"
  by (simp add: get_email_def)

lemma get_email_id: "get_email i w = Inr e \<Longrightarrow> email_id e = i"
  by (auto simp: get_email_def find_Some_iff split: option.splits)

lemma find_map_upd:
  "find (\<lambda>x. f x = i) xs = Some y \<Longrightarrow> f e = i \<Longrightarrow>
   find (\<lambda>x. f x = i) (map (\<lambda>x. if f x = f e then e else x) xs) = Some e"
  by (induction xs) (auto split: if_splits)

lemma get_email_save:
  "get_email i w = Inr e0 \<Longrightarrow> email_id e = i \<Longrightarrow> get_email i (save_email e w) = Inr e"
  using find_map_upd [of email_id i "emails w" _ e]
  by (auto simp: get_email_def save_email_def split: option.splits)

lemma save_email_twice:
  "email_id e = email_id e' \<Longrightarrow> save_email e (save_email e' w) = save_email e w"
  by (simp add: save_email_def comp_def cong: if_cong)

lemma email_ids_save [simp]: "map email_id (emails (save_email e w)) = map email_id (emails w)"
  by (simp add: save_email_def comp_def cong: if_cong)

lemma classify_email_world:
  "snd (classify_email env s b w) =
     w\<lparr>api_calls := api_calls w @
          [ClassifyRequest (map cat_name (categories w)) s (fst (mask_sensitive_data b))]\<rparr>"
  by (simp add: classify_email_def Let_def split: sum.splits exn.splits)

lemma generate_reply_world:
  "snd (generate_reply env s b c n arts w) =
     w\<lparr>api_calls := api_calls w @
          [ReplyRequest c (map (\<lambda>a. (title a, content a)) (take 5 arts)) s
             (fst (mask_sensitive_data b))]\<rparr>"
  by (simp add: generate_reply_def Let_def split: sum.splits)


lemma getitem_JObj: "getitem v k = Inr x \<Longrightarrow> \<exists>d. v = JObj d"
  by (cases v) (simp_all add: getitem_def)

lemma get_default_JObj: "\<exists>u. get_default (JObj d) k x = Inr u"
  by (simp add: get_default_def split: option.splits)

lemma le_fold_max: "(a::nat) \<le> fold max xs a"
proof (induction xs arbitrary: a)
  case Nil
  show ?case by simp
next
  case (Cons x xs)
  have "a \<le> max x a" by simp
  also have "\<dots> \<le> fold max xs (max x a)" by (rule Cons.IH)
  finally show ?case by simp
qed

lemma mem_le_fold_max: "x \<in> set xs \<Longrightarrow> (x::nat) \<le> fold max xs a"
proof (induction xs arbitrary: a)
  case Nil
  then show ?case by simp
next
  case (Cons y ys)
  show ?case
  proof (cases "x = y")
    case True
    have "x \<le> max y a" using True by simp
    also have "\<dots> \<le> fold max ys (max y a)" by (rule le_fold_max)
    finally show ?thesis by simp
  next
    case False
    with Cons.prems have "x \<in> set ys" by simp
    then show ?thesis using Cons.IH by simp
  qed
qed

lemma fresh_id_notin: "fresh_id ids \<notin> set ids"
  using mem_le_fold_max [of "fresh_id ids" ids 0] by (auto simp: fresh_id_def)

lemma map_upd_notin: "i \<notin> f ` set xs \<Longrightarrow> map (\<lambda>x. if f x = i then r else x) xs = xs"
  by (induction xs) auto

lemma replies_save_new:
  "reply_id r = fresh_id (map reply_id rs) \<Longrightarrow> reply_id r0 = reply_id r \<Longrightarrow>
   replies (save_reply r (w\<lparr>replies := rs @ [r0]\<rparr>)) = rs @ [r]"
  using fresh_id_notin [of "map reply_id rs"]
  by (simp add: save_reply_def map_upd_notin)

lemma classification_step_frame:
  "replies (snd (classification_step env i w)) = replies w"
  "kb_articles (snd (classification_step env i w)) = kb_articles w"
  "categories (snd (classification_step env i w)) = categories w"
  "smtp_calls (snd (classification_step env i w)) = smtp_calls w"
  "notifications (snd (classification_step env i w)) = notifications w"
  "map email_id (emails (snd (classification_step env i w))) = map email_id (emails w)"
  using classify_email_world [of env]
  by (auto simp: classification_step_def Let_def split: sum.splits prod.splits option.splits
           dest!: arg_cong[where f=snd])

lemma classification_step_Inr:
  assumes "classification_step env i w = (Inr (e, c, cr), w1)"
  shows "email_id e = i" and "status e = Processing" and "get_email i w1 = Inr e"
    and "\<exists>e0. get_email i w = Inr e0 \<and> subject e = subject e0 \<and> body e = body e0
              \<and> from_email e = from_email e0 \<and> from_name e = from_name e0"
    and "\<exists>cat. getitem c ''category'' = Inr cat \<and> cr = find_category env cat w"
    and "\<exists>req. api_calls w1 = api_calls w @ [req] \<and> (\<exists>a b d. req = ClassifyRequest a b d)"
    and "processing_logs w1 = processing_logs w @
           [\<lparr>log_email = i, step = ''classification'', log_status = Started,
              details = JObj [], error_message = None\<rparr>,
            \<lparr>log_email = i, step = ''classification'', log_status = Completed,
              details = c, error_message = None\<rparr>]"
proof -
  from assms obtain e0 where g: "get_email i w = Inr e0"
    by (auto simp: classification_step_def split: sum.splits)
  have id0: "email_id e0 = i" using g by (rule get_email_id)
  define wa where
    "wa = log_create i ''classification'' Started (JObj []) None (save_email (e0\<lparr>status := Processing\<rparr>) w)"
  obtain r wb where ce: "classify_email env (subject e0) (body e0) wa = (r, wb)"
    by fastforce
  have wb: "wb = wa\<lparr>api_calls := api_calls wa @
        [ClassifyRequest (map cat_name (categories wa)) (subject e0) (fst (mask_sensitive_data (body e0)))]\<rparr>"
    using classify_email_world [of env "subject e0" "body e0" wa] ce by simp
  from assms g ce id0 obtain prio sent conf esc reason info cat where
    e: "e = e0\<lparr>status := Processing, category := map_option cat_id cr, priority := prio, ai_sentiment := sent,
            ai_classification_confidence := conf, requires_escalation := esc,
            escalation_reason := reason, ai_extracted_info := info\<rparr>"
    and w1: "w1 = log_create i ''classification'' Completed c None (save_email e wb)"
    and cat: "getitem c ''category'' = Inr cat"
    and cr: "cr = find_category env cat wb"
    by (auto simp: classification_step_def Let_def wa_def
             split: sum.splits prod.splits option.splits)
  have cr': "cr = find_category env cat w"
    using cr find_category_categories [of wb w env cat] by (simp add: wb wa_def)
  show "email_id e = i" using e id0 by simp
  show "status e = Processing" using e by simp
  have "emails w1 = emails (save_email e (save_email (e0\<lparr>status := Processing\<rparr>) w))"
    by (simp add: w1 wb wa_def save_email_def)
  also have "\<dots> = emails (save_email e w)"
    using e by (simp add: save_email_twice)
  finally have "get_email i w1 = get_email i (save_email e w)" by (rule get_email_emails)
  then show "get_email i w1 = Inr e" using get_email_save [OF g, of e] e id0 by simp
  show "\<exists>e0. get_email i w = Inr e0 \<and> subject e = subject e0 \<and> body e = body e0
              \<and> from_email e = from_email e0 \<and> from_name e = from_name e0"
    using g e by simp
  show "\<exists>cat. getitem c ''category'' = Inr cat \<and> cr = find_category env cat w"
    using cat cr' by blast
  show "\<exists>req. api_calls w1 = api_calls w @ [req] \<and> (\<exists>a b d. req = ClassifyRequest a b d)"
    by (simp add: w1 wb wa_def)
  show "processing_logs w1 = processing_logs w @
           [\<lparr>log_email = i, step = ''classification'', log_status = Started,
              details = JObj [], error_message = None\<rparr>,
            \<lparr>log_email = i, step = ''classification'', log_status = Completed,
              details = c, error_message = None\<rparr>]"
    by (simp add: w1 wb wa_def)
qed

lemma generation_step_frame:
  "emails (snd (generation_step env e c cr w)) = emails w"
  "replies (snd (generation_step env e c cr w)) = replies w"
  "kb_articles (snd (generation_step env e c cr w)) = kb_articles w"
  "categories (snd (generation_step env e c cr w)) = categories w"
  "smtp_calls (snd (generation_step env e c cr w)) = smtp_calls w"
  "notifications (snd (generation_step env e c cr w)) = notifications w"
  "\<exists>ls. processing_logs (snd (generation_step env e c cr w)) = processing_logs w @ ls
        \<and> (\<forall>l \<in> set ls. step l \<noteq> ''processing'')"
  using generate_reply_world [of env]
  by (auto simp: generation_step_def Let_def split: sum.splits prod.splits dest!: arg_cong[where f=snd])

lemma map_of_map_upd:
  "map_of (map (\<lambda>kv. if fst kv = k then (k, v) else kv) d) k'
     = (if k' = k then map_option (\<lambda>_. v) (map_of d k) else map_of d k')"
  by (induction d) auto

lemma map_of_dict_set:
  "map_of (dict_set k v d) k' = (if k' = k then Some v else map_of d k')"
proof (cases "k \<in> set (map fst d)")
  case True
  then obtain y where "map_of d k = Some y"
    by (cases "map_of d k") (auto simp: map_of_eq_None_iff)
  with True show ?thesis by (simp add: dict_set_def map_of_map_upd)
next
  case False
  then have "map_of d k = None" by (simp add: map_of_eq_None_iff)
  with False show ?thesis by (auto simp: dict_set_def map_add_def split: option.splits)
qed

lemma getitem_setitem:
  "getitem v k0 = Inr y \<Longrightarrow>
   getitem (setitem v k x) k' = (if k' = k then Inr x else getitem v k')"
  by (cases v) (simp_all add: getitem_def setitem_def map_of_dict_set)

lemma generate_reply_Inr:
  assumes "generate_reply env s b cat name arts w = (Inr rd, w')"
  shows "\<exists>t. getitem rd ''reply'' = Inr (JStr t)"
proof -
  from assms obtain result r t where r: "getitem result ''reply'' = Inr r"
    and rd: "rd = setitem result ''reply'' (JStr t)"
    by (auto simp: generate_reply_def Let_def split: sum.splits)
  show ?thesis using getitem_setitem [OF r, of "''reply''" "JStr t" "''reply''"] rd by simp
qed

lemma select_articles_log_create [simp]:
  "select_articles cr (log_create i s st d err w) = select_articles cr w"
  by (cases cr) (simp_all add: select_articles_def)

lemma generation_step_Inr:
  assumes "generation_step env e c cr w = (Inr (rd, arts), w2)"
  shows "arts = select_articles cr w"
    and "\<exists>t. getitem rd ''reply'' = Inr (JStr t)"
  using assms
  by (auto simp: generation_step_def Let_def split: sum.splits prod.splits
           dest: generate_reply_Inr)


lemma send_reply_ok:
  "smtp_send env \<lparr>mail_to = from_email e, mail_subject = ''Re: '' @ subject e,
                  mail_body = reply_body r\<rparr> = None \<Longrightarrow>
   send_reply env e r w =
     (Inr True,
      save_email (e\<lparr>status := Replied\<rparr>)
        (save_reply (r\<lparr>reply_status := Sent\<rparr>)
           (w\<lparr>smtp_calls := smtp_calls w @
                [\<lparr>mail_to = from_email e, mail_subject = ''Re: '' @ subject e,
                  mail_body = reply_body r\<rparr>]\<rparr>)))"
  by (simp add: send_reply_def Let_def)

lemma send_reply_fail:
  "smtp_send env \<lparr>mail_to = from_email e, mail_subject = ''Re: '' @ subject e,
                  mail_body = reply_body r\<rparr> = Some err \<Longrightarrow>
   \<exists>x. send_reply env e r w =
     (Inl x, w\<lparr>smtp_calls := smtp_calls w @
                [\<lparr>mail_to = from_email e, mail_subject = ''Re: '' @ subject e,
                  mail_body = reply_body r\<rparr>]\<rparr>)"
  by (cases err) (simp_all add: send_reply_def Let_def)

lemma generated_Some:
  assumes "generated env i w = Some (rd, arts)"
  shows "\<exists>e c cr w1 w2. classification_step env i w = (Inr (e, c, cr), w1)
           \<and> \<not> truthy (requires_escalation e)
           \<and> generation_step env e c cr w1 = (Inr (rd, arts), w2)"
  using assms
  by (auto simp: generated_def split: sum.splits prod.splits if_splits)

lemma try_body_reply:
  assumes "classification_step env i w = (Inr (e, c, cr), w1)"
    and "\<not> truthy (requires_escalation e)"
    and "generation_step env e c cr w1 = (Inr (rd, arts), w2)"
  shows "\<exists>r. try_body env i w =
           (case draft_step env e rd arts w2 of
              (Inl x, w') \<Rightarrow> (Inl x, w')
            | (Inr u, w') \<Rightarrow> (Inr r, w'))"
proof -
  obtain cat where "getitem c ''category'' = Inr cat"
    using classification_step_Inr(5) [OF assms(1)] by blast
  with assms show ?thesis
    by (simp add: try_body_def reply_step_def split: sum.splits prod.splits)
qed


lemma replies_save_last:
  "replies w = rs @ [r0] \<Longrightarrow> reply_id r0 \<notin> reply_id ` set rs \<Longrightarrow> reply_id r = reply_id r0 \<Longrightarrow>
   replies (save_reply r w) = rs @ [r]"
  by (simp add: save_reply_def map_upd_notin)

lemma kb_articles_increment:
  "kb_articles w1 = kb_articles w2 \<Longrightarrow>
   kb_articles (snd (increment_use_counts arts w1))
     = kb_articles (snd (increment_use_counts arts w2))"
  by (induction arts arbitrary: w1 w2) (simp_all add: save_article_def)

lemma draft_step_unfold:
  assumes "getitem rd ''reply'' = Inr txt"
    and "getitem rd ''confidence'' = Inr cv"
    and "getitem rd ''requires_review'' = Inr rv"
    and "float_field env cv = None"
    and "\<forall>a \<in> set arts. use_count a < max_integer"
    and "txt \<noteq> JNull"
  shows "\<exists>d wc. draft_step env e rd arts w = routing_step env e d cv rv wc
           \<and> replies wc = replies w @ [d] \<and> emails wc = emails w
           \<and> smtp_calls wc = smtp_calls w \<and> notifications wc = notifications w
           \<and> api_calls wc = api_calls w \<and> categories wc = categories w
           \<and> kb_articles wc = kb_articles (snd (increment_use_counts arts w))
           \<and> (\<exists>l. processing_logs wc = processing_logs w @ [l] \<and> step l = ''reply_generation'')
           \<and> reply_status d = (if truthy rv then Pending_approval else Draft)
           \<and> reply_body d = format_value env txt \<and> reply_email d = email_id e
           \<and> knowledge_base_articles d = map kb_id arts
           \<and> reply_id d = fresh_id (map reply_id (replies w))"
proof -
  obtain dict where rd: "rd = JObj dict" using getitem_JObj [OF assms(1)] by blast
  obtain used where u: "get_default rd ''used_articles'' (JArr []) = Inr used"
    using get_default_JObj [of dict] rd by blast
  define d where "d = \<lparr>reply_id = fresh_id (map reply_id (replies w)),
                      reply_email = email_id e,
                      reply_body = format_value env txt,
                      reply_source = ''ai'',
                      reply_status = (if truthy rv then Pending_approval else Draft),
                      ai_confidence = cv,
                      knowledge_base_articles = map kb_id arts\<rparr>"
  define wb where "wb = (if arts = [] then w\<lparr>replies := replies w @ [d]\<rparr>
       else snd (increment_use_counts arts
                   (save_reply d (w\<lparr>replies := replies w @ [d\<lparr>knowledge_base_articles := []\<rparr>]\<rparr>))))"
  note inc = increment_use_counts_ok [OF assms(5)]
  define wc where "wc = log_create (email_id e) ''reply_generation'' Completed
                     (JObj [(''confidence'', cv), (''requires_review'', rv),
                            (''used_articles'', used)]) None wb"
  have step: "draft_step env e rd arts w = routing_step env e d cv rv wc"
    using assms(1-4,6) u
    by (simp add: draft_step_def Let_def d_def wb_def wc_def inc case_result_Inr)
  have rep: "replies wb = replies w @ [d]"
    using replies_save_new [of d "replies w" "d\<lparr>knowledge_base_articles := []\<rparr>" w]
    by (simp add: wb_def d_def)
  have kb: "kb_articles wb = kb_articles (snd (increment_use_counts arts w))"
  proof (cases "arts = []")
    case True
    then show ?thesis by (simp add: wb_def)
  next
    case False
    then show ?thesis
      using kb_articles_increment [of "save_reply d (w\<lparr>replies := replies w @ [d\<lparr>knowledge_base_articles := []\<rparr>]\<rparr>)" w arts]
      by (simp add: wb_def)
  qed
  have "replies wc = replies w @ [d]" using rep by (simp add: wc_def)
  moreover have "emails wc = emails w" "smtp_calls wc = smtp_calls w"
    "notifications wc = notifications w" "api_calls wc = api_calls w" "categories wc = categories w"
    by (simp_all add: wc_def wb_def)
  moreover have "kb_articles wc = kb_articles (snd (increment_use_counts arts w))"
    using kb by (simp add: wc_def)
  moreover have "\<exists>l. processing_logs wc = processing_logs w @ [l] \<and> step l = ''reply_generation''"
    by (simp add: wc_def wb_def)
  moreover have "reply_status d = (if truthy rv then Pending_approval else Draft)"
    "reply_body d = format_value env txt" "reply_email d = email_id e"
    "knowledge_base_articles d = map kb_id arts" "reply_id d = fresh_id (map reply_id (replies w))"
    by (simp_all add: d_def)
  ultimately show ?thesis using step by blast
qed

lemma routing_review:
  "\<not> (auto_reply_threshold env \<le> conf \<and> \<not> truthy rv) \<Longrightarrow>
   routing_step env e d (JNum conf) rv wc = (Inr (), save_email (e\<lparr>status := Pending_review\<rparr>) wc)"
  by (auto simp: routing_step_def ge_float_def)

lemma routing_sent:
  assumes "auto_reply_threshold env \<le> conf" and "\<not> truthy rv"
    and "smtp_send env \<lparr>mail_to = from_email e, mail_subject = ''Re: '' @ subject e,
                       mail_body = reply_body d\<rparr> = None"
  shows "routing_step env e d (JNum conf) rv wc =
     (Inr (), log_create (email_id e) ''auto_send'' Completed
                (JObj [(''reply_id'', JNum (real (reply_id d)))]) None
                (save_email (e\<lparr>status := Replied\<rparr>)
                   (save_reply (d\<lparr>reply_status := Sent\<rparr>)
                      ((save_reply (d\<lparr>reply_status := Approved\<rparr>) wc)
                         \<lparr>smtp_calls := smtp_calls wc @
                            [\<lparr>mail_to = from_email e, mail_subject = ''Re: '' @ subject e,
                              mail_body = reply_body d\<rparr>]\<rparr>))))"
  using assms send_reply_ok [of env e "d\<lparr>reply_status := Approved\<rparr>" "save_reply (d\<lparr>reply_status := Approved\<rparr>) wc"]
  by (simp add: routing_step_def ge_float_def Let_def)

lemma routing_failed:
  assumes "auto_reply_threshold env \<le> conf" and "\<not> truthy rv"
    and "smtp_send env \<lparr>mail_to = from_email e, mail_subject = ''Re: '' @ subject e,
                       mail_body = reply_body d\<rparr> = Some err"
  shows "\<exists>x. routing_step env e d (JNum conf) rv wc =
     (Inr (), log_create (email_id e) ''auto_send'' Failed (JObj []) (Some x)
                ((save_reply (d\<lparr>reply_status := Approved\<rparr>) wc)
                   \<lparr>smtp_calls := smtp_calls wc @
                      [\<lparr>mail_to = from_email e, mail_subject = ''Re: '' @ subject e,
                        mail_body = reply_body d\<rparr>]\<rparr>))"
proof -
  obtain x where "send_reply env e (d\<lparr>reply_status := Approved\<rparr>) (save_reply (d\<lparr>reply_status := Approved\<rparr>) wc) =
     (Inl x, (save_reply (d\<lparr>reply_status := Approved\<rparr>) wc)\<lparr>smtp_calls := smtp_calls wc @
                [\<lparr>mail_to = from_email e, mail_subject = ''Re: '' @ subject e,
                  mail_body = reply_body d\<rparr>]\<rparr>)"
    using send_reply_fail [of env e "d\<lparr>reply_status := Approved\<rparr>" err "save_reply (d\<lparr>reply_status := Approved\<rparr>) wc"] assms(3)
    by auto
  then show ?thesis using assms(1,2)
    by (auto simp: routing_step_def ge_float_def Let_def)
qed

lemma select_articles_kb:
  "kb_articles w' = kb_articles w \<Longrightarrow> select_articles cr w' = select_articles cr w"
  by (cases cr) (simp_all add: select_articles_def)

lemma pipeline_draft:
  assumes "generated env i w = Some (rd, arts)"
    and "getitem rd ''confidence'' = Inr cv"
    and "getitem rd ''requires_review'' = Inr rv"
    and "float_field env cv = None"
    and "\<forall>a \<in> set arts. use_count a < max_integer"
  shows "\<exists>e e0 d wc r cr.
           try_body env i w =
             (case routing_step env e d cv rv wc of
                (Inl x, w') \<Rightarrow> (Inl x, w')
              | (Inr u, w') \<Rightarrow> (Inr r, w'))
           \<and> get_email i w = Inr e0 \<and> get_email i wc = Inr e \<and> email_id e = i
           \<and> status e = Processing \<and> from_email e = from_email e0 \<and> subject e = subject e0
           \<and> replies wc = replies w @ [d] \<and> smtp_calls wc = smtp_calls w
           \<and> notifications wc = notifications w
           \<and> arts = select_articles cr w
           \<and> kb_articles wc = kb_articles (snd (increment_use_counts arts w))
           \<and> reply_status d = (if truthy rv then Pending_approval else Draft)
           \<and> reply_email d = i \<and> knowledge_base_articles d = map kb_id arts
           \<and> reply_id d \<notin> reply_id ` set (replies w)
           \<and> getitem rd ''reply'' = Inr (JStr (reply_body d))"
proof -
  from generated_Some [OF assms(1)] obtain e c cr w1 w2 where
    cs: "classification_step env i w = (Inr (e, c, cr), w1)"
    and ne: "\<not> truthy (requires_escalation e)"
    and gs: "generation_step env e c cr w1 = (Inr (rd, arts), w2)"
    by blast
  note c1 = classification_step_Inr [OF cs]
  from c1(4) obtain e0 where e0: "get_email i w = Inr e0" "subject e = subject e0"
    "from_email e = from_email e0" by blast
  have w1: "replies w1 = replies w" "kb_articles w1 = kb_articles w"
    "smtp_calls w1 = smtp_calls w" "notifications w1 = notifications w"
    using classification_step_frame [of env i w] cs by simp_all
  have w2: "emails w2 = emails w1" "replies w2 = replies w1" "kb_articles w2 = kb_articles w1"
    "smtp_calls w2 = smtp_calls w1" "notifications w2 = notifications w1"
    using generation_step_frame [of env e c cr w1] gs by simp_all
  from generation_step_Inr [OF gs] obtain t where
    arts: "arts = select_articles cr w1" and t: "getitem rd ''reply'' = Inr (JStr t)" by blast
  have "JStr t \<noteq> JNull" by simp
  from draft_step_unfold [OF t assms(2,3,4,5) this, of e w2] obtain d wc where
    ds: "draft_step env e rd arts w2 = routing_step env e d cv rv wc"
    and wc: "replies wc = replies w2 @ [d]" "emails wc = emails w2" "smtp_calls wc = smtp_calls w2"
      "notifications wc = notifications w2"
      "kb_articles wc = kb_articles (snd (increment_use_counts arts w2))"
    and d: "reply_status d = (if truthy rv then Pending_approval else Draft)"
      "reply_email d = email_id e" "knowledge_base_articles d = map kb_id arts"
      "reply_id d = fresh_id (map reply_id (replies w2))"
      "reply_body d = format_value env (JStr t)"
    by blast
  have body: "getitem rd ''reply'' = Inr (JStr (reply_body d))"
    using t d(5) by (simp add: format_value_def)
  from try_body_reply [OF cs ne gs] ds obtain r where
    tb: "try_body env i w =
           (case routing_step env e d cv rv wc of
              (Inl x, w') \<Rightarrow> (Inl x, w')
            | (Inr u, w') \<Rightarrow> (Inr r, w'))" by auto
  have g: "get_email i wc = Inr e"
    using get_email_emails [of wc w1 i] wc(2) w2(1) c1(3) by simp
  have fresh: "reply_id d \<notin> reply_id ` set (replies w)"
    using fresh_id_notin [of "map reply_id (replies w)"] d(4) w2(2) w1(1) by simp
  have kb: "kb_articles wc = kb_articles (snd (increment_use_counts arts w))"
    using kb_articles_increment [of w2 w arts] wc(5) w2(3) w1(2) by simp
  have sel: "arts = select_articles cr w"
    using arts select_articles_kb [of w1 w cr] w1(2) by simp
  have f: "replies wc = replies w @ [d]" "smtp_calls wc = smtp_calls w"
    "notifications wc = notifications w" "reply_email d = i"
    using wc w2 w1 d c1(1) by simp_all
  show ?thesis
    using tb e0 g c1(1,2) f sel kb d(1,3) fresh body
    by (intro exI conjI) assumption+
qed


lemma process_returns:
  "try_body env i w = (Inr r, w') \<Longrightarrow> process_email_task env n i w = (Returned r, w')"
  by (simp add: process_email_task_def)

lemma pipeline_review:
  assumes "generated env i w = Some (rd, arts)"
    and "getitem rd ''confidence'' = Inr (JNum conf)"
    and "getitem rd ''requires_review'' = Inr rv"
    and "\<not> (auto_reply_threshold env \<le> conf \<and> \<not> truthy rv)"
    and "\<forall>a \<in> set arts. use_count a < max_integer"
    and "float_field env (JNum conf) = None"
  shows "\<exists>d r w'. process_email_task env n i w = (Returned r, w')
           \<and> replies w' = replies w @ [d]
           \<and> reply_status d = (if truthy rv then Pending_approval else Draft)
           \<and> smtp_calls w' = smtp_calls w
           \<and> status_of i w' = Some Pending_review"
proof -
  note ff = assms(6)
  from pipeline_draft [OF assms(1,2,3) ff assms(5)] obtain e e0 d wc r where
    tb: "try_body env i w =
             (case routing_step env e d (JNum conf) rv wc of
                (Inl x, w') \<Rightarrow> (Inl x, w')
              | (Inr u, w') \<Rightarrow> (Inr r, w'))"
    and g: "get_email i wc = Inr e" "email_id e = i"
    and wc: "replies wc = replies w @ [d]" "smtp_calls wc = smtp_calls w"
    and d: "reply_status d = (if truthy rv then Pending_approval else Draft)"
    by blast
  define w' where "w' = save_email (e\<lparr>status := Pending_review\<rparr>) wc"
  have "try_body env i w = (Inr r, w')"
    using tb routing_review [OF assms(4), of e d wc] by (simp add: w'_def)
  then have p: "process_email_task env n i w = (Returned r, w')" by (rule process_returns)
  have "get_email i w' = Inr (e\<lparr>status := Pending_review\<rparr>)"
    unfolding w'_def using g by (intro get_email_save) simp_all
  then have st: "status_of i w' = Some Pending_review" by (simp add: status_of_def)
  have "replies w' = replies w @ [d]" "smtp_calls w' = smtp_calls w"
    using wc by (simp_all add: w'_def)
  with p d st show ?thesis by blast
qed

lemma pipeline_sent:
  assumes "generated env i w = Some (rd, arts)"
    and "getitem rd ''confidence'' = Inr (JNum conf)"
    and "getitem rd ''requires_review'' = Inr rv"
    and "auto_reply_threshold env \<le> conf" and "\<not> truthy rv"
    and "get_email i w = Inr e0" and "getitem rd ''reply'' = Inr (JStr t)"
    and "smtp_send env \<lparr>mail_to = from_email e0, mail_subject = ''Re: '' @ subject e0,
                       mail_body = t\<rparr> = None"
    and "\<forall>a \<in> set arts. use_count a < max_integer"
    and "float_field env (JNum conf) = None"
  shows "\<exists>d r w'. process_email_task env n i w = (Returned r, w')
           \<and> replies w' = replies w @ [d] \<and> reply_status d = Sent \<and> reply_body d = t
           \<and> smtp_calls w' = smtp_calls w @
                 [\<lparr>mail_to = from_email e0, mail_subject = ''Re: '' @ subject e0, mail_body = t\<rparr>]
           \<and> status_of i w' = Some Replied
           \<and> (\<exists>l. processing_logs w' = l @
                 [\<lparr>log_email = i, step = ''auto_send'', log_status = Completed,
                   details = JObj [(''reply_id'', JNum (real (reply_id d)))], error_message = None\<rparr>])"
proof -
  note ff = assms(10)
  from pipeline_draft [OF assms(1,2,3) ff assms(9)] obtain e e1 d wc r where
    tb: "try_body env i w =
             (case routing_step env e d (JNum conf) rv wc of
                (Inl x, w') \<Rightarrow> (Inl x, w')
              | (Inr u, w') \<Rightarrow> (Inr r, w'))"
    and g: "get_email i wc = Inr e" "email_id e = i"
    and e1: "get_email i w = Inr e1" "from_email e = from_email e1" "subject e = subject e1"
    and wc: "replies wc = replies w @ [d]" "smtp_calls wc = smtp_calls w"
    and fresh: "reply_id d \<notin> reply_id ` set (replies w)"
    and body: "getitem rd ''reply'' = Inr (JStr (reply_body d))"
    by blast
  define m where "m = \<lparr>mail_to = from_email e, mail_subject = ''Re: '' @ subject e,
                        mail_body = reply_body d\<rparr>"
  have m: "m = \<lparr>mail_to = from_email e0, mail_subject = ''Re: '' @ subject e0, mail_body = t\<rparr>"
    using e1 body assms(6,7) by (simp add: m_def)
  define wa where "wa = (save_reply (d\<lparr>reply_status := Approved\<rparr>) wc)
                         \<lparr>smtp_calls := smtp_calls wc @ [m]\<rparr>"
  define wb where "wb = save_email (e\<lparr>status := Replied\<rparr>) (save_reply (d\<lparr>reply_status := Sent\<rparr>) wa)"
  define w' where "w' = log_create (email_id e) ''auto_send'' Completed
                (JObj [(''reply_id'', JNum (real (reply_id d)))]) None wb"
  have "routing_step env e d (JNum conf) rv wc = (Inr (), w')"
    using routing_sent [OF assms(4,5), of e d wc] assms(8) m
    by (simp add: w'_def wb_def wa_def m_def)
  then have "try_body env i w = (Inr r, w')" using tb by simp
  then have p: "process_email_task env n i w = (Returned r, w')" by (rule process_returns)
  have ra: "replies wa = replies w @ [d\<lparr>reply_status := Approved\<rparr>]"
    using replies_save_last [OF wc(1), of "d\<lparr>reply_status := Approved\<rparr>"] fresh
    by (simp add: wa_def save_reply_def)
  have rb: "replies (save_reply (d\<lparr>reply_status := Sent\<rparr>) wa) = replies w @ [d\<lparr>reply_status := Sent\<rparr>]"
    using replies_save_last [OF ra, of "d\<lparr>reply_status := Sent\<rparr>"] fresh by simp
  have r': "replies w' = replies w @ [d\<lparr>reply_status := Sent\<rparr>]"
    using rb by (simp add: w'_def wb_def)
  have s': "smtp_calls w' = smtp_calls w @ [m]"
    using wc(2) by (simp add: w'_def wb_def wa_def)
  have "get_email i (save_reply (d\<lparr>reply_status := Sent\<rparr>) wa) = Inr e"
    using g(1) get_email_emails [of "save_reply (d\<lparr>reply_status := Sent\<rparr>) wa" wc i]
    by (simp add: wa_def)
  then have "get_email i wb = Inr (e\<lparr>status := Replied\<rparr>)"
    unfolding wb_def using g(2) by (intro get_email_save) simp_all
  then have "get_email i w' = Inr (e\<lparr>status := Replied\<rparr>)"
    using get_email_emails [of w' wb i] by (simp add: w'_def)
  then have st: "status_of i w' = Some Replied" by (simp add: status_of_def)
  have lg: "\<exists>l. processing_logs w' = l @
                 [\<lparr>log_email = i, step = ''auto_send'', log_status = Completed,
                   details = JObj [(''reply_id'', JNum (real (reply_id (d\<lparr>reply_status := Sent\<rparr>))))],
                   error_message = None\<rparr>]"
    using g(2) by (simp add: w'_def)
  have "reply_status (d\<lparr>reply_status := Sent\<rparr>) = Sent"
    "reply_body (d\<lparr>reply_status := Sent\<rparr>) = t"
    using body assms(7) by simp_all
  with p r' s' st lg m show ?thesis by blast
qed

lemma pipeline_send_failed:
  assumes "generated env i w = Some (rd, arts)"
    and "getitem rd ''confidence'' = Inr (JNum conf)"
    and "getitem rd ''requires_review'' = Inr rv"
    and "auto_reply_threshold env \<le> conf" and "\<not> truthy rv"
    and "get_email i w = Inr e0" and "getitem rd ''reply'' = Inr (JStr t)"
    and "smtp_send env \<lparr>mail_to = from_email e0, mail_subject = ''Re: '' @ subject e0,
                       mail_body = t\<rparr> = Some err"
    and "\<forall>a \<in> set arts. use_count a < max_integer"
    and "float_field env (JNum conf) = None"
  shows "\<exists>d r w' x. process_email_task env n i w = (Returned r, w')
           \<and> replies w' = replies w @ [d] \<and> reply_status d = Approved \<and> reply_body d = t
           \<and> smtp_calls w' = smtp_calls w @
                 [\<lparr>mail_to = from_email e0, mail_subject = ''Re: '' @ subject e0, mail_body = t\<rparr>]
           \<and> status_of i w' = Some Processing
           \<and> (\<exists>l. processing_logs w' = l @
                 [\<lparr>log_email = i, step = ''auto_send'', log_status = Failed,
                   details = JObj [], error_message = Some x\<rparr>])"
proof -
  note ff = assms(10)
  from pipeline_draft [OF assms(1,2,3) ff assms(9)] obtain e e1 d wc r where
    tb: "try_body env i w =
             (case routing_step env e d (JNum conf) rv wc of
                (Inl x, w') \<Rightarrow> (Inl x, w')
              | (Inr u, w') \<Rightarrow> (Inr r, w'))"
    and g: "get_email i wc = Inr e" "email_id e = i" "status e = Processing"
    and e1: "get_email i w = Inr e1" "from_email e = from_email e1" "subject e = subject e1"
    and wc: "replies wc = replies w @ [d]" "smtp_calls wc = smtp_calls w"
    and fresh: "reply_id d \<notin> reply_id ` set (replies w)"
    and body: "getitem rd ''reply'' = Inr (JStr (reply_body d))"
    by blast
  define m where "m = \<lparr>mail_to = from_email e, mail_subject = ''Re: '' @ subject e,
                        mail_body = reply_body d\<rparr>"
  have m: "m = \<lparr>mail_to = from_email e0, mail_subject = ''Re: '' @ subject e0, mail_body = t\<rparr>"
    using e1 body assms(6,7) by (simp add: m_def)
  define wa where "wa = (save_reply (d\<lparr>reply_status := Approved\<rparr>) wc)
                         \<lparr>smtp_calls := smtp_calls wc @ [m]\<rparr>"
  from routing_failed [OF assms(4,5), of e d err wc] assms(8) m obtain x where
    rs: "routing_step env e d (JNum conf) rv wc =
           (Inr (), log_create (email_id e) ''auto_send'' Failed (JObj []) (Some x) wa)"
    by (auto simp: wa_def m_def)
  define w' where "w' = log_create (email_id e) ''auto_send'' Failed (JObj []) (Some x) wa"
  have "try_body env i w = (Inr r, w')" using tb rs by (simp add: w'_def)
  then have p: "process_email_task env n i w = (Returned r, w')" by (rule process_returns)
  have ra: "replies wa = replies w @ [d\<lparr>reply_status := Approved\<rparr>]"
    using replies_save_last [OF wc(1), of "d\<lparr>reply_status := Approved\<rparr>"] fresh
    by (simp add: wa_def save_reply_def)
  then have r': "replies w' = replies w @ [d\<lparr>reply_status := Approved\<rparr>]"
    by (simp add: w'_def)
  have s': "smtp_calls w' = smtp_calls w @ [m]"
    using wc(2) by (simp add: w'_def wa_def)
  have "get_email i w' = Inr e"
    using g(1) get_email_emails [of w' wc i] by (simp add: w'_def wa_def)
  then have st: "status_of i w' = Some Processing" using g(3) by (simp add: status_of_def)
  have lg: "\<exists>l. processing_logs w' = l @
                 [\<lparr>log_email = i, step = ''auto_send'', log_status = Failed,
                   details = JObj [], error_message = Some x\<rparr>]"
    using g(2) by (simp add: w'_def)
  have "reply_status (d\<lparr>reply_status := Approved\<rparr>) = Approved"
    "reply_body (d\<lparr>reply_status := Approved\<rparr>) = t"
    using body assms(7) by simp_all
  with p r' s' st lg m show ?thesis by blast
qed


lemma generated_reply_text:
  assumes "generated env i w = Some (rd, arts)"
  shows "\<exists>e0 t. get_email i w = Inr e0 \<and> getitem rd ''reply'' = Inr (JStr t)"
proof -
  from generated_Some [OF assms] obtain e c cr w1 w2 where
    cs: "classification_step env i w = (Inr (e, c, cr), w1)"
    and gs: "generation_step env e c cr w1 = (Inr (rd, arts), w2)"
    by blast
  from classification_step_Inr(4) [OF cs] obtain e0 where "get_email i w = Inr e0" by blast
  moreover from generation_step_Inr(2) [OF gs] obtain t where
    "getitem rd ''reply'' = Inr (JStr t)" by blast
  ultimately show ?thesis by blast
qed

section \<open>Routing of the draft\<close>

text \<open>
  C1, as amended. When the email is classified without escalation, the classification
  is stored, the generation call returns reply data with a numeric confidence that the
  column of the draft takes, and the use counts of the selected articles can be
  stored: the draft is approved and handed
  to the sender exactly when the confidence reaches the threshold and no review is
  asked for. Otherwise nothing is sent and the email goes to pending review; the draft
  is pending approval when a review was asked for, and stays a plain draft when only
  the confidence was too low.
\<close>

theorem auto_send_gating:
  assumes "generated env i w = Some (rd, arts)"
    and "getitem rd ''confidence'' = Inr (JNum conf)"
    and "getitem rd ''requires_review'' = Inr rv"
    and "process_email_task env n i w = (out, w')"
    and "\<forall>a \<in> set arts. use_count a < max_integer"
    and "float_field env (JNum conf) = None"
  shows "(auto_reply_threshold env \<le> conf \<and> \<not> truthy rv \<longrightarrow>
            (\<exists>d m. replies w' = replies w @ [d] \<and> reply_status d \<in> {Approved, Sent}
                   \<and> smtp_calls w' = smtp_calls w @ [m] \<and> mail_body m = reply_body d))
       \<and> (\<not> (auto_reply_threshold env \<le> conf \<and> \<not> truthy rv) \<longrightarrow>
            (\<exists>d. replies w' = replies w @ [d]
                  \<and> reply_status d = (if truthy rv then Pending_approval else Draft))
            \<and> smtp_calls w' = smtp_calls w
            \<and> status_of i w' = Some Pending_review)"
proof (rule conjI [OF impI impI])
  assume hi: "auto_reply_threshold env \<le> conf \<and> \<not> truthy rv"
  from generated_reply_text [OF assms(1)] obtain e0 t where
    e0: "get_email i w = Inr e0" and t: "getitem rd ''reply'' = Inr (JStr t)"
    by blast
  define m where "m = \<lparr>mail_to = from_email e0, mail_subject = ''Re: '' @ subject e0,
                        mail_body = t\<rparr>"
  have mb: "mail_body m = t" by (simp add: m_def)
  show "\<exists>d m. replies w' = replies w @ [d] \<and> reply_status d \<in> {Approved, Sent}
                   \<and> smtp_calls w' = smtp_calls w @ [m] \<and> mail_body m = reply_body d"
  proof (cases "smtp_send env m")
    case None
    from pipeline_sent [OF assms(1,2,3) conjunct1 [OF hi] conjunct2 [OF hi] e0 t _
        assms(5,6), of n]
      None assms(4)
    obtain d where "replies w' = replies w @ [d]" "reply_status d = Sent" "reply_body d = t"
      "smtp_calls w' = smtp_calls w @ [m]" by (auto simp: m_def)
    with mb show ?thesis by auto
  next
    case (Some err)
    from pipeline_send_failed [OF assms(1,2,3) conjunct1 [OF hi] conjunct2 [OF hi] e0 t _
        assms(5,6), of err n]
      Some assms(4)
    obtain d where "replies w' = replies w @ [d]" "reply_status d = Approved" "reply_body d = t"
      "smtp_calls w' = smtp_calls w @ [m]" by (auto simp: m_def)
    with mb show ?thesis by auto
  qed
next
  assume lo: "\<not> (auto_reply_threshold env \<le> conf \<and> \<not> truthy rv)"
  from pipeline_review [OF assms(1,2,3) lo assms(5,6), of n] assms(4)
  show "(\<exists>d. replies w' = replies w @ [d]
                  \<and> reply_status d = (if truthy rv then Pending_approval else Draft))
            \<and> smtp_calls w' = smtp_calls w
            \<and> status_of i w' = Some Pending_review"
    by auto
qed


text \<open>
  C10. An approved draft is handed to the sender (the email is classified without
  escalation and the classification stored, the reply data have a numeric confidence
  that the column of the draft takes and that reaches the threshold, they ask for no
  review, and the use counts of the selected articles can be stored). When the SMTP
  server accepts the
  message, the draft becomes sent and the email replied. When sending raises, the draft
  stays approved, the email stays in processing, a failed \<open>auto_send\<close> entry is logged,
  and the task returns normally: nothing is raised, so it is not retried and the
  handler that resets the status to new does not run.
\<close>

theorem auto_send_outcome:
  assumes "generated env i w = Some (rd, arts)"
    and "getitem rd ''confidence'' = Inr (JNum conf)"
    and "getitem rd ''requires_review'' = Inr rv"
    and "auto_reply_threshold env \<le> conf" and "\<not> truthy rv"
    and "get_email i w = Inr e0" and "getitem rd ''reply'' = Inr (JStr t)"
    and "smtp_send env \<lparr>mail_to = from_email e0, mail_subject = ''Re: '' @ subject e0,
                       mail_body = t\<rparr> = res"
    and "process_email_task env n i w = (out, w')"
    and "\<forall>a \<in> set arts. use_count a < max_integer"
    and "float_field env (JNum conf) = None"
  shows "(res = None \<longrightarrow>
            (\<exists>d. replies w' = replies w @ [d] \<and> reply_status d = Sent)
            \<and> status_of i w' = Some Replied)
       \<and> (res \<noteq> None \<longrightarrow>
            (\<exists>d. replies w' = replies w @ [d] \<and> reply_status d = Approved)
            \<and> status_of i w' = Some Processing
            \<and> (\<exists>r. out = Returned r)
            \<and> (\<exists>l x. processing_logs w' = l @
                  [\<lparr>log_email = i, step = ''auto_send'', log_status = Failed,
                    details = JObj [], error_message = Some x\<rparr>]))"
proof (rule conjI [OF impI impI])
  assume "res = None"
  with pipeline_sent [OF assms(1-7) _ assms(10,11), of n] assms(8,9)
  show "(\<exists>d. replies w' = replies w @ [d] \<and> reply_status d = Sent)
            \<and> status_of i w' = Some Replied"
    by auto
next
  assume "res \<noteq> None"
  then obtain err where "res = Some err" by auto
  with pipeline_send_failed [OF assms(1-7) _ assms(10,11), of err n] assms(8,9)
  show "(\<exists>d. replies w' = replies w @ [d] \<and> reply_status d = Approved)
            \<and> status_of i w' = Some Processing
            \<and> (\<exists>r. out = Returned r)
            \<and> (\<exists>l x. processing_logs w' = l @
                  [\<lparr>log_email = i, step = ''auto_send'', log_status = Failed,
                    details = JObj [], error_message = Some x\<rparr>])"
    by auto
qed

section \<open>Failures and escalation\<close>

lemma process_raises:
  "try_body env i w = (Inl x, w2) \<Longrightarrow> x \<noteq> DoesNotExist \<Longrightarrow>
   process_email_task env n i w = (retry n x (60 * 2 ^ n), log_failure i x w2)"
  by (cases x) (simp_all add: process_email_task_def)

lemma log_failure_effect:
  assumes "get_email i w = Inr e"
  shows "status_of i (log_failure i x w) = Some New"
    and "replies (log_failure i x w) = replies w"
    and "kb_articles (log_failure i x w) = kb_articles w"
    and "smtp_calls (log_failure i x w) = smtp_calls w"
    and "notifications (log_failure i x w) = notifications w"
    and "api_calls (log_failure i x w) = api_calls w"
    and "map email_id (emails (log_failure i x w)) = map email_id (emails w)"
    and "processing_logs (log_failure i x w) = processing_logs w @
           [\<lparr>log_email = i, step = ''processing'', log_status = Failed,
             details = JObj [], error_message = Some x\<rparr>]"
proof -
  have id: "email_id e = i" using assms by (rule get_email_id)
  define wa where "wa = log_create i ''processing'' Failed (JObj []) (Some x) w"
  have lf: "log_failure i x w = save_email (e\<lparr>status := New\<rparr>) wa"
    using assms id by (simp add: log_failure_def Let_def wa_def)
  have "get_email i wa = Inr e" using assms get_email_emails [of wa w i] by (simp add: wa_def)
  then have "get_email i (log_failure i x w) = Inr (e\<lparr>status := New\<rparr>)"
    unfolding lf using id by (intro get_email_save) simp_all
  then show "status_of i (log_failure i x w) = Some New" by (simp add: status_of_def)
  show "replies (log_failure i x w) = replies w" "kb_articles (log_failure i x w) = kb_articles w"
    "smtp_calls (log_failure i x w) = smtp_calls w"
    "notifications (log_failure i x w) = notifications w"
    "api_calls (log_failure i x w) = api_calls w"
    "map email_id (emails (log_failure i x w)) = map email_id (emails w)"
    "processing_logs (log_failure i x w) = processing_logs w @
           [\<lparr>log_email = i, step = ''processing'', log_status = Failed,
             details = JObj [], error_message = Some x\<rparr>]"
    by (simp_all add: lf wa_def)
qed

lemma escalation_required_Some:
  assumes "escalation_required env i w = Some b"
  shows "\<exists>e c cr w1. classification_step env i w = (Inr (e, c, cr), w1)
           \<and> truthy (requires_escalation e) = b"
  using assms by (auto simp: escalation_required_def split: sum.splits prod.splits)

lemma generate_reply_parse_failure:
  assumes "messages_create env (ReplyRequest c (map (\<lambda>a. (title a, content a)) (take 5 arts)) s
             (fst (mask_sensitive_data b))) = Inr t"
    and "json_loads env (strip_fences t) = Inl JSONDecodeError"
  shows "fst (generate_reply env s b c name arts w) = Inl JSONDecodeError"
  using assms by (simp add: generate_reply_def Let_def)

lemma get_default_Inl: "get_default v k d = Inl x \<Longrightarrow> x = AttributeError"
  by (cases v) (simp_all add: get_default_def split: option.splits)

lemma getitem_Inl: "getitem v k = Inl x \<Longrightarrow> x = TypeError \<or> x = KeyError k"
  by (cases v) (simp_all add: getitem_def split: option.splits)

lemma generation_step_parse_failure:
  assumes "\<And>c k s b. messages_create env (ReplyRequest c k s b) = Inr t"
    and "json_loads env (strip_fences t) = Inl JSONDecodeError"
  shows "\<exists>x. fst (generation_step env e c cr w) = Inl x \<and> x \<noteq> DoesNotExist"
proof -
  define wa where "wa = log_create (email_id e) ''reply_generation'' Started (JObj []) None w"
  show ?thesis
  proof (cases "get_default (ai_extracted_info e) ''customer_name'' (JStr (from_name e))")
    case (Inl x)
    then show ?thesis using get_default_Inl [OF Inl]
      by (simp add: generation_step_def Let_def)
  next
    case name: (Inr name)
    show ?thesis
    proof (cases "getitem c ''category''")
      case (Inl x)
      then show ?thesis using getitem_Inl [OF Inl] name
        by (auto simp: generation_step_def Let_def)
    next
      case (Inr cat)
      have "fst (generate_reply env (subject e) (body e) cat name (select_articles cr w) wa)
              = Inl JSONDecodeError"
        by (rule generate_reply_parse_failure) (rule assms)+
      then show ?thesis using name Inr
        by (auto simp: generation_step_def Let_def wa_def split: sum.splits prod.splits)
    qed
  qed
qed

text \<open>
  C5. When the response to the generation request is not valid JSON, \<open>generate_reply\<close>
  raises \<open>JSONDecodeError\<close>: nothing is defaulted. In the pipeline, for an email
  classified without escalation (and the classification stored), no draft is created,
  the failure is logged, the status is reset to new, and the task ends in
  \<open>self.retry\<close>.
\<close>

theorem generation_parse_failure:
  assumes "escalation_required env i w = Some False"
    and "\<And>c k s b. messages_create env (ReplyRequest c k s b) = Inr t"
    and "json_loads env (strip_fences t) = Inl JSONDecodeError"
    and "process_email_task env n i w = (out, w')"
  shows "fst (generate_reply env s b c name arts w0) = Inl JSONDecodeError
       \<and> replies w' = replies w
       \<and> status_of i w' = Some New
       \<and> (\<exists>x. out = retry n x (60 * 2 ^ n)
              \<and> (\<exists>l. processing_logs w' = l @
                    [\<lparr>log_email = i, step = ''processing'', log_status = Failed,
                      details = JObj [], error_message = Some x\<rparr>]))"
proof -
  have g: "fst (generate_reply env s b c name arts w0) = Inl JSONDecodeError"
    by (rule generate_reply_parse_failure) (rule assms)+
  from escalation_required_Some [OF assms(1)] obtain e cl cr w1 where
    cs: "classification_step env i w = (Inr (e, cl, cr), w1)"
    and ne: "\<not> truthy (requires_escalation e)" by auto
  note c1 = classification_step_Inr [OF cs]
  from c1(5) obtain cat where cat: "getitem cl ''category'' = Inr cat" by blast
  from generation_step_parse_failure [OF assms(2,3), of e cl cr w1] obtain x w2 where
    gs: "generation_step env e cl cr w1 = (Inl x, w2)" and x: "x \<noteq> DoesNotExist"
    by (metis fst_conv surj_pair)
  have w2: "emails w2 = emails w1" "replies w2 = replies w1"
    using generation_step_frame [of env e cl cr w1] gs by simp_all
  have w1: "replies w1 = replies w"
    using classification_step_frame [of env i w] cs by simp
  have "try_body env i w = (Inl x, w2)"
    using cs cat ne gs by (simp add: try_body_def reply_step_def)
  from process_raises [OF this x, of n] assms(4)
  have out: "out = retry n x (60 * 2 ^ n)" and w': "w' = log_failure i x w2" by simp_all
  have ge: "get_email i w2 = Inr e"
    using c1(3) get_email_emails [OF w2(1), of i] by simp
  note lf = log_failure_effect [OF ge, of x]
  have "replies w' = replies w" using lf(2) w2(2) w1 w' by simp
  moreover have "status_of i w' = Some New" using lf(1) w' by simp
  moreover have "\<exists>l. processing_logs w' = l @
                    [\<lparr>log_email = i, step = ''processing'', log_status = Failed,
                      details = JObj [], error_message = Some x\<rparr>]"
    using lf(8) w' by simp
  ultimately show ?thesis using g out by blast
qed

text \<open>
  C6. When the classification is stored and asks for escalation, the email becomes
  escalated and the escalation notification is queued. The only request to the
  reasoning service is the classification request: no reply is generated, no draft is
  created, nothing is sent. Which confidence the classification has plays no part.
\<close>

theorem escalation_precedence:
  assumes "escalation_required env i w = Some True"
    and "process_email_task env n i w = (out, w')"
  shows "status_of i w' = Some Escalated
       \<and> notifications w' = notifications w @ [i]
       \<and> (\<exists>cats s b. api_calls w' = api_calls w @ [ClassifyRequest cats s b])
       \<and> replies w' = replies w
       \<and> smtp_calls w' = smtp_calls w
       \<and> (\<exists>r. out = Returned r)"
proof -
  from escalation_required_Some [OF assms(1)] obtain e cl cr w1 where
    cs: "classification_step env i w = (Inr (e, cl, cr), w1)"
    and esc: "truthy (requires_escalation e)" by auto
  note c1 = classification_step_Inr [OF cs]
  from c1(5) obtain cat where cat: "getitem cl ''category'' = Inr cat" by blast
  have w1: "replies w1 = replies w" "smtp_calls w1 = smtp_calls w"
    "notifications w1 = notifications w"
    using classification_step_frame [of env i w] cs by simp_all
  have "try_body env i w = (Inr (Processed i cat (requires_escalation e)), escalation_step e w1)"
    using cs cat esc by (simp add: try_body_def)
  from process_returns [OF this, of n] assms(2)
  have out: "out = Returned (Processed i cat (requires_escalation e))"
    and w': "w' = escalation_step e w1" by simp_all
  have "get_email i (save_email (e\<lparr>status := Escalated\<rparr>) w1) = Inr (e\<lparr>status := Escalated\<rparr>)"
    using c1(1,3) by (intro get_email_save) simp_all
  then have "get_email i w' = Inr (e\<lparr>status := Escalated\<rparr>)"
    using get_email_emails [of w' "save_email (e\<lparr>status := Escalated\<rparr>) w1" i]
    by (simp add: w' escalation_step_def Let_def)
  then have "status_of i w' = Some Escalated" by (simp add: status_of_def)
  moreover have "notifications w' = notifications w @ [i]"
    using w1 c1(1) by (simp add: w' escalation_step_def Let_def)
  moreover have "\<exists>cats s b. api_calls w' = api_calls w @ [ClassifyRequest cats s b]"
    using c1(6) by (auto simp: w' escalation_step_def Let_def)
  moreover have "replies w' = replies w" "smtp_calls w' = smtp_calls w"
    using w1 by (simp_all add: w' escalation_step_def Let_def)
  ultimately show ?thesis using out by blast
qed

section \<open>The status of the email is not looked at\<close>

lemma classification_step_status:
  assumes "get_email i w = Inr e"
  shows "classification_step env i (save_email (e\<lparr>status := s\<rparr>) w)
           = classification_step env i (save_email (e\<lparr>status := s'\<rparr>) w)"
proof -
  have id: "email_id e = i" using assms by (rule get_email_id)
  have g: "get_email i (save_email (e\<lparr>status := t\<rparr>) w) = Inr (e\<lparr>status := t\<rparr>)" for t
    using assms id by (intro get_email_save) simp_all
  have sv: "save_email (e\<lparr>status := Processing\<rparr>) (save_email (e\<lparr>status := t\<rparr>) w)
              = save_email (e\<lparr>status := Processing\<rparr>) w" for t
    by (rule save_email_twice) simp
  show ?thesis
    unfolding classification_step_def g by (simp add: Let_def sv)
qed

text \<open>
  C2, as amended. The task does not look at the status of the email: run on an email
  in any status, terminal or not, it does exactly what it does on the same email in
  status new. The manual action \<open>reprocess\<close> runs this same task; there is no flag
  that forces or prevents the processing.
\<close>

theorem status_not_inspected:
  assumes "get_email i w = Inr e"
  shows "process_email_task env n i (save_email (e\<lparr>status := s\<rparr>) w)
           = process_email_task env n i (save_email (e\<lparr>status := New\<rparr>) w)
       \<and> reprocess env i (save_email (e\<lparr>status := s\<rparr>) w)
           = process_email_task env 0 i (save_email (e\<lparr>status := New\<rparr>) w)"
  using classification_step_status [OF assms, of env s New]
  by (simp add: process_email_task_def try_body_def reprocess_def)

section \<open>The classification fallback\<close>

text \<open>
  C4, as amended. When the response to the classification request, stripped of its
  code fence, is not valid JSON, \<open>classify_email\<close> returns the default classification
  (general, 0.5, medium, neutral, no escalation) and does not raise. A response that
  parses to an object with a category and a confidence is returned as it is, whatever
  its category: the category is not compared with the configured ones.
\<close>

theorem classification_fallback:
  assumes "messages_create env
             (ClassifyRequest (map cat_name (categories w)) s (fst (mask_sensitive_data b))) = Inr t"
  shows "(json_loads env (strip_fences t) = Inl JSONDecodeError \<longrightarrow>
            fst (classify_email env s b w) = Inr default_classification)
       \<and> (\<forall>d c x. json_loads env (strip_fences t) = Inr (JObj d)
              \<and> map_of d ''category'' = Some c \<and> map_of d ''confidence'' = Some x \<longrightarrow>
            fst (classify_email env s b w) = Inr (JObj d))
       \<and> getitem default_classification ''category'' = Inr (JStr ''general'')
       \<and> getitem default_classification ''confidence'' = Inr (JNum 0.5)
       \<and> getitem default_classification ''priority'' = Inr (JStr ''medium'')
       \<and> getitem default_classification ''sentiment'' = Inr (JStr ''neutral'')
       \<and> getitem default_classification ''requires_escalation'' = Inr (JBool False)"
  using assms
  by (simp add: classify_email_def Let_def getitem_def default_classification_def)

section \<open>Ingestion\<close>

lemma count_distinct:
  "distinct (map f xs) \<Longrightarrow> x \<in> set xs \<Longrightarrow> length (filter (\<lambda>e. f e = f x) xs) = 1"
proof (induction xs)
  case Nil
  then show ?case by simp
next
  case (Cons y ys)
  show ?case
  proof (cases "x = y")
    case True
    have "f y \<notin> f ` set ys" using Cons.prems(1) by simp
    then have "\<forall>e \<in> set ys. f e \<noteq> f y" by (metis imageI)
    then have "filter (\<lambda>e. f e = f y) ys = []" by (simp add: filter_empty_conv)
    with True show ?thesis by simp
  next
    case False
    with Cons.prems have "x \<in> set ys" "f y \<noteq> f x" by auto
    with Cons show ?thesis by simp
  qed
qed

text \<open>
  C8. The message id is unique among the stored emails. When a fetched message has
  been ingested (the parser did not raise), ingesting a message with the same id again
  returns \<open>None\<close> and leaves the state as it is, and exactly one stored email has that
  id.
\<close>

theorem ingest_twice:
  assumes "distinct (map message_id (emails w))"
    and "\<not> isl (fst (parse_email d1 w))"
    and "raw_message_id d2 = raw_message_id d1"
  shows "parse_email d2 (snd (parse_email d1 w)) = (Inr None, snd (parse_email d1 w))
       \<and> length (filter (\<lambda>e. message_id e = raw_message_id d1)
                   (emails (snd (parse_email d1 w)))) = 1
       \<and> distinct (map message_id (emails (snd (parse_email d1 w))))"
proof (cases "\<exists>e \<in> set (emails w). message_id e = raw_message_id d1")
  case True
  then obtain e where e: "e \<in> set (emails w)" "message_id e = raw_message_id d1" by blast
  have w1: "snd (parse_email d1 w) = w" using True by (simp add: parse_email_def)
  have "parse_email d2 w = (Inr None, w)" using True assms(3) by (simp add: parse_email_def)
  moreover have "length (filter (\<lambda>x. message_id x = raw_message_id d1) (emails w)) = 1"
    using count_distinct [OF assms(1) e(1)] e(2) by simp
  ultimately show ?thesis using w1 assms(1) by simp
next
  case False
  with assms(2) obtain f where f: "raw_fields d1 = Inr f"
    by (cases "raw_fields d1") (simp_all add: parse_email_def)
  define n where "n = \<lparr>email_id = fresh_id (map email_id (emails w)),
                       message_id = raw_message_id d1,
                       from_email = pf_from_email f, from_name = pf_from_name f,
                       subject = pf_subject f, body = pf_body f, status = New,
                       category = None, priority = JStr ''medium'', ai_sentiment = JNull,
                       ai_classification_confidence = JNull, requires_escalation = JBool False,
                       escalation_reason = JStr [], ai_extracted_info = JObj []\<rparr>"
  have w1: "snd (parse_email d1 w) = w\<lparr>emails := emails w @ [n]\<rparr>"
    using False f by (simp add: parse_email_def Let_def n_def)
  have mid: "message_id n = raw_message_id d1" by (simp add: n_def)
  have "parse_email d2 (w\<lparr>emails := emails w @ [n]\<rparr>) = (Inr None, w\<lparr>emails := emails w @ [n]\<rparr>)"
    using mid assms(3) by (simp add: parse_email_def)
  moreover have "filter (\<lambda>e. message_id e = raw_message_id d1) (emails w) = []"
    using False by (auto simp: filter_empty_conv)
  moreover have "distinct (map message_id (emails w @ [n]))"
    using assms(1) False mid by auto
  ultimately show ?thesis using w1 mid by simp
qed

section \<open>Knowledge selection and use counts\<close>

lemma select_articles_props:
  "set (select_articles (Some c) w)
     \<subseteq> {a \<in> set (kb_articles w). kb_category a = cat_id c \<and> is_active a}"
  "sorted_wrt (\<lambda>a b. use_count b \<le> use_count a) (select_articles (Some c) w)"
  "length (select_articles (Some c) w) \<le> 3"
  "\<forall>a \<in> set (kb_articles w). kb_category a = cat_id c \<and> is_active a
      \<and> a \<notin> set (select_articles (Some c) w) \<longrightarrow>
     (\<forall>b \<in> set (select_articles (Some c) w). use_count a \<le> use_count b)"
proof -
  define cand where "cand = filter (\<lambda>a. kb_category a = cat_id c \<and> is_active a) (kb_articles w)"
  define xs where "xs = sort_key (\<lambda>a. - use_count a) cand"
  have sel: "select_articles (Some c) w = take 3 xs"
    by (simp add: select_articles_def xs_def cand_def)
  have set_xs: "set xs = set cand" by (simp add: xs_def)
  have "sorted (map (\<lambda>a. - use_count a) xs)" by (simp add: xs_def)
  then have srt: "sorted_wrt (\<lambda>a b. use_count b \<le> use_count a) xs"
    by (simp add: sorted_map)
  show "set (select_articles (Some c) w)
     \<subseteq> {a \<in> set (kb_articles w). kb_category a = cat_id c \<and> is_active a}"
    using set_take_subset [of 3 xs] set_xs by (auto simp: sel cand_def)
  have "sorted_wrt (\<lambda>a b. use_count b \<le> use_count a) (take 3 xs @ drop 3 xs)"
    using srt by simp
  then have parts: "sorted_wrt (\<lambda>a b. use_count b \<le> use_count a) (take 3 xs)"
    "\<forall>b \<in> set (take 3 xs). \<forall>a \<in> set (drop 3 xs). use_count a \<le> use_count b"
    unfolding sorted_wrt_append by blast+
  show "sorted_wrt (\<lambda>a b. use_count b \<le> use_count a) (select_articles (Some c) w)"
    using parts(1) by (simp add: sel)
  show "length (select_articles (Some c) w) \<le> 3" by (simp add: sel)
  show "\<forall>a \<in> set (kb_articles w). kb_category a = cat_id c \<and> is_active a
      \<and> a \<notin> set (select_articles (Some c) w) \<longrightarrow>
     (\<forall>b \<in> set (select_articles (Some c) w). use_count a \<le> use_count b)"
  proof (intro ballI impI)
    fix a b
    assume a: "a \<in> set (kb_articles w)"
      "kb_category a = cat_id c \<and> is_active a \<and> a \<notin> set (select_articles (Some c) w)"
      and b: "b \<in> set (select_articles (Some c) w)"
    from a have "a \<in> set xs" by (simp add: set_xs cand_def)
    then have "a \<in> set (take 3 xs) \<union> set (drop 3 xs)"
      using set_append [of "take 3 xs" "drop 3 xs"] by simp
    with a(2) have "a \<in> set (drop 3 xs)" by (simp add: sel)
    with parts(2) b show "use_count a \<le> use_count b" by (simp add: sel)
  qed
qed

lemma select_articles_subset: "set (select_articles cr w) \<subseteq> set (kb_articles w)"
proof (cases cr)
  case None
  then show ?thesis by (simp add: select_articles_def)
next
  case (Some c)
  then show ?thesis using select_articles_props(1) [where c = c and w = w] by auto
qed

lemma fold_increment:
  assumes "distinct (map kb_id T)" and "set arts \<subseteq> set T"
  shows "fold (\<lambda>a T. map (\<lambda>x. if kb_id x = kb_id a then a\<lparr>use_count := use_count a + 1\<rparr> else x) T)
           arts T
         = map (\<lambda>x. if x \<in> set arts then x\<lparr>use_count := use_count x + 1\<rparr> else x) T"
  using assms(2)
proof (induction arts rule: rev_induct)
  case Nil
  show ?case by simp
next
  case (snoc a xs)
  have inj: "inj_on kb_id (set T)" using assms(1) by (simp add: distinct_map)
  have a: "a \<in> set T" using snoc.prems by simp
  have ih: "fold (\<lambda>a T. map (\<lambda>x. if kb_id x = kb_id a then a\<lparr>use_count := use_count a + 1\<rparr> else x) T)
           xs T
         = map (\<lambda>x. if x \<in> set xs then x\<lparr>use_count := use_count x + 1\<rparr> else x) T"
    using snoc by simp
  have "map (\<lambda>x. if kb_id x = kb_id a then a\<lparr>use_count := use_count a + 1\<rparr> else x)
          (map (\<lambda>x. if x \<in> set xs then x\<lparr>use_count := use_count x + 1\<rparr> else x) T)
        = map (\<lambda>x. if x \<in> set (xs @ [a]) then x\<lparr>use_count := use_count x + 1\<rparr> else x) T"
  proof (simp only: map_map, rule map_cong [OF refl])
    fix x assume x: "x \<in> set T"
    have "kb_id x = kb_id a \<longleftrightarrow> x = a" using inj x a by (auto dest: inj_onD)
    then show "((\<lambda>x. if kb_id x = kb_id a then a\<lparr>use_count := use_count a + 1\<rparr> else x) \<circ>
            (\<lambda>x. if x \<in> set xs then x\<lparr>use_count := use_count x + 1\<rparr> else x)) x
          = (if x \<in> set (xs @ [a]) then x\<lparr>use_count := use_count x + 1\<rparr> else x)"
      by auto
  qed
  then show ?case using ih by simp
qed

lemma kb_articles_increment_fold:
  "\<forall>a \<in> set arts. use_count a < max_integer \<Longrightarrow>
   kb_articles (snd (increment_use_counts arts w))
     = fold (\<lambda>a T. map (\<lambda>x. if kb_id x = kb_id a then a\<lparr>use_count := use_count a + 1\<rparr> else x) T)
         arts (kb_articles w)"
  by (induction arts arbitrary: w) (simp_all add: save_article_def)

lemma routing_step_kb: "kb_articles (snd (routing_step env e d cv rv wc)) = kb_articles wc"
  by (auto simp: routing_step_def send_reply_def Let_def
           split: sum.splits prod.splits option.splits exn.splits)

lemma log_failure_kb: "kb_articles (log_failure i x w) = kb_articles w"
  by (simp add: log_failure_def Let_def split: sum.splits)

lemma process_email_task_kb:
  "kb_articles (snd (process_email_task env n i w)) = kb_articles (snd (try_body env i w))"
  by (auto simp: process_email_task_def log_failure_kb split: sum.splits prod.splits exn.splits)

text \<open>
  C9. The articles passed to the generation call are the selection for the category
  row whose name is the classified category. The selection for a category consists of
  active articles of that category only, in descending order of use count, and has at
  most three articles; no article left out has a higher use count than a selected one.
  When the generation call has returned reply data for the selected articles, the
  draft can be created (its confidence is taken by the column) and the use counts can
  be stored, each selected article is stored with its use count plus one, and every
  other article is as before: also the active articles of the category that the limit
  left out. (The list \<open>used_articles\<close> of the reply data plays no part.)
\<close>

theorem knowledge_selection_and_use:
  assumes "generated env i w = Some (rd, arts)"
    and "classification_of env i w = Some cl"
    and "getitem cl ''category'' = Inr cat"
    and "getitem rd ''confidence'' = Inr cv"
    and "float_field env cv = None"
    and "getitem rd ''requires_review'' = Inr rv"
    and "distinct (map kb_id (kb_articles w))"
    and "\<forall>a \<in> set arts. use_count a < max_integer"
    and "process_email_task env n i w = (out, w')"
  shows "arts = select_articles (find_category env cat w) w
       \<and> set (select_articles (Some c) w)
           \<subseteq> {a \<in> set (kb_articles w). kb_category a = cat_id c \<and> is_active a}
       \<and> sorted_wrt (\<lambda>a b. use_count b \<le> use_count a) (select_articles (Some c) w)
       \<and> length (select_articles (Some c) w) \<le> 3
       \<and> (\<forall>a \<in> set (kb_articles w). kb_category a = cat_id c \<and> is_active a
              \<and> a \<notin> set (select_articles (Some c) w) \<longrightarrow>
            (\<forall>b \<in> set (select_articles (Some c) w). use_count a \<le> use_count b))
       \<and> kb_articles w'
           = map (\<lambda>a. if a \<in> set arts then a\<lparr>use_count := use_count a + 1\<rparr> else a)
               (kb_articles w)"
proof -
  from generated_Some [OF assms(1)] obtain e c0 cr w1 w2 where
    cs: "classification_step env i w = (Inr (e, c0, cr), w1)"
    and gs: "generation_step env e c0 cr w1 = (Inr (rd, arts), w2)"
    by blast
  have cl: "c0 = cl" using cs assms(2) by (simp add: classification_of_def)
  from classification_step_Inr(5) [OF cs] cl assms(3)
  have cr: "cr = find_category env cat w" by auto
  have "kb_articles w1 = kb_articles w"
    using classification_step_frame(2) [where env = env and i = i and w = w] cs by simp
  then have "select_articles cr w1 = select_articles cr w" by (rule select_articles_kb)
  with generation_step_Inr(1) [OF gs] cr
  have tie: "arts = select_articles (find_category env cat w) w" by simp
  from pipeline_draft [OF assms(1,4,6,5,8)] obtain e' d wc r where
    tb: "try_body env i w =
             (case routing_step env e' d cv rv wc of
                (Inl x, w') \<Rightarrow> (Inl x, w')
              | (Inr u, w') \<Rightarrow> (Inr r, w'))"
    and kb: "kb_articles wc = kb_articles (snd (increment_use_counts arts w))"
    by blast
  have "snd (try_body env i w) = snd (routing_step env e' d cv rv wc)"
    unfolding tb by (simp split: sum.splits prod.splits)
  then have "kb_articles w' = kb_articles wc"
    using process_email_task_kb [of env n i w] routing_step_kb [of env e' d cv rv wc] assms(9)
    by simp
  also have "\<dots> = map (\<lambda>a. if a \<in> set arts then a\<lparr>use_count := use_count a + 1\<rparr> else a)
               (kb_articles w)"
    unfolding kb kb_articles_increment_fold [OF assms(8)]
    using assms(7) select_articles_subset [of "find_category env cat w" w] tie
    by (intro fold_increment) simp_all
  finally have inc: "kb_articles w'
           = map (\<lambda>a. if a \<in> set arts then a\<lparr>use_count := use_count a + 1\<rparr> else a)
               (kb_articles w)" .
  with tie select_articles_props [where c = c and w = w] show ?thesis by blast
qed

section \<open>Retries\<close>

lemma failed_entries_logs:
  "processing_logs w' = processing_logs w \<Longrightarrow> failed_entries i w' = failed_entries i w"
  by (simp add: failed_entries_def)

lemma failed_entries_log_create:
  "s \<noteq> ''processing'' \<Longrightarrow> failed_entries i (log_create j s st d err w) = failed_entries i w"
  by (simp add: failed_entries_def)

lemma find_Some_set: "find P xs = Some x \<Longrightarrow> x \<in> set xs \<and> P x"
  by (induction xs) (auto split: if_splits)

lemma get_email_exists: "(\<exists>e. get_email i w = Inr e) \<longleftrightarrow> i \<in> set (map email_id (emails w))"
proof (cases "find (\<lambda>e. email_id e = i) (emails w)")
  case None
  have "get_email i w = Inl DoesNotExist" using None by (simp add: get_email_def)
  moreover have "i \<notin> set (map email_id (emails w))"
    using None unfolding find_None_iff by auto
  ultimately show ?thesis by simp
next
  case (Some x)
  then show ?thesis using find_Some_set [OF Some] by (auto simp: get_email_def)
qed

lemma classification_step_failed_entries:
  "failed_entries j (snd (classification_step env i w)) = failed_entries j w"
proof (cases "get_email i w")
  case (Inl x)
  then show ?thesis by (simp add: classification_step_def)
next
  case (Inr e0)
  define wa where "wa = log_create (email_id e0) ''classification'' Started (JObj []) None
                          (save_email (e0\<lparr>status := Processing\<rparr>) w)"
  obtain r wb where ce: "classify_email env (subject e0) (body e0) wa = (r, wb)" by fastforce
  have wb: "failed_entries j wb = failed_entries j w"
    using classify_email_world [of env "subject e0" "body e0" wa] ce
    by (simp add: wa_def failed_entries_def)
  have "failed_entries j (snd (classification_step env i w)) = failed_entries j wb"
    using Inr ce
    by (simp add: classification_step_def Let_def wa_def [symmetric] failed_entries_def
             split: sum.splits option.splits)
  with wb show ?thesis by simp
qed

lemma generation_step_failed_entries:
  "failed_entries j (snd (generation_step env e c cr w)) = failed_entries j w"
  using generation_step_frame(7) [where env = env and e = e and c = c and cr = cr and w = w]
  by (auto simp: failed_entries_def)

lemma send_reply_frame:
  "map email_id (emails (snd (send_reply env e r w))) = map email_id (emails w)"
  "processing_logs (snd (send_reply env e r w)) = processing_logs w"
  by (simp_all add: send_reply_def Let_def split: option.splits exn.splits)

lemma routing_step_frame:
  "map email_id (emails (snd (routing_step env e d cv rv w))) = map email_id (emails w)"
  "failed_entries j (snd (routing_step env e d cv rv w)) = failed_entries j w"
proof -
  obtain r ws where sr: "send_reply env e (d\<lparr>reply_status := Approved\<rparr>)
                           (save_reply (d\<lparr>reply_status := Approved\<rparr>) w) = (r, ws)"
    by fastforce
  have ws: "map email_id (emails ws) = map email_id (emails w)"
    "processing_logs ws = processing_logs w"
    using send_reply_frame [of env e "d\<lparr>reply_status := Approved\<rparr>"
            "save_reply (d\<lparr>reply_status := Approved\<rparr>) w"] sr
    by simp_all
  show "map email_id (emails (snd (routing_step env e d cv rv w))) = map email_id (emails w)"
    using sr ws by (simp add: routing_step_def Let_def split: sum.splits)
  show "failed_entries j (snd (routing_step env e d cv rv w)) = failed_entries j w"
    using sr ws by (simp add: routing_step_def Let_def failed_entries_def split: sum.splits)
qed

lemma failed_entries_other [simp]:
  "failed_entries j (w\<lparr>replies := rs\<rparr>) = failed_entries j w"
  "failed_entries j (save_reply r w) = failed_entries j w"
  "failed_entries j (snd (increment_use_counts arts w)) = failed_entries j w"
  by (simp_all add: failed_entries_def)

lemma draft_step_frame:
  "map email_id (emails (snd (draft_step env e rd arts w))) = map email_id (emails w)"
  "failed_entries j (snd (draft_step env e rd arts w)) = failed_entries j w"
  by (auto simp: draft_step_def Let_def routing_step_frame failed_entries_log_create
           split: sum.splits option.splits prod.splits if_splits
           dest!: arg_cong [where f = snd])

lemma reply_step_frame:
  "map email_id (emails (snd (reply_step env e c cr w))) = map email_id (emails w)"
  "failed_entries j (snd (reply_step env e c cr w)) = failed_entries j w"
proof -
  obtain r w2 where gs: "generation_step env e c cr w = (r, w2)" by fastforce
  have w2: "emails w2 = emails w" "failed_entries j w2 = failed_entries j w"
    using generation_step_frame(1) [where env = env and e = e and c = c and cr = cr and w = w]
      generation_step_failed_entries [of j env e c cr w] gs by simp_all
  show "map email_id (emails (snd (reply_step env e c cr w))) = map email_id (emails w)"
    using gs w2 by (auto simp: reply_step_def draft_step_frame split: sum.splits)
  show "failed_entries j (snd (reply_step env e c cr w)) = failed_entries j w"
    using gs w2 by (auto simp: reply_step_def draft_step_frame split: sum.splits)
qed

lemma try_body_frame:
  "map email_id (emails (snd (try_body env i w))) = map email_id (emails w)"
  "failed_entries j (snd (try_body env i w)) = failed_entries j w"
proof -
  obtain r w1 where cs: "classification_step env i w = (r, w1)" by fastforce
  have w1: "map email_id (emails w1) = map email_id (emails w)"
    "failed_entries j w1 = failed_entries j w"
    using classification_step_frame(6) [where env = env and i = i and w = w]
      classification_step_failed_entries [of j env i w] cs by simp_all
  have esc: "map email_id (emails (escalation_step e w1)) = map email_id (emails w1)"
    "failed_entries j (escalation_step e w1) = failed_entries j w1" for e
    by (simp_all add: escalation_step_def Let_def failed_entries_def)
  have rs: "map email_id (emails (snd (reply_step env e c cr w1))) = map email_id (emails w1)"
    "failed_entries j (snd (reply_step env e c cr w1)) = failed_entries j w1" for e c cr
    by (rule reply_step_frame)+
  have "map email_id (emails (snd (try_body env i w))) = map email_id (emails w)
      \<and> failed_entries j (snd (try_body env i w)) = failed_entries j w"
  proof (cases r)
    case (Inl x)
    then show ?thesis using cs w1 by (simp add: try_body_def)
  next
    case (Inr t)
    obtain e c cr where t: "t = (e, c, cr)" by (cases t) auto
    obtain r2 w2 where r2: "reply_step env e c cr w1 = (r2, w2)" by fastforce
    have w2: "map email_id (emails w2) = map email_id (emails w1)"
      "failed_entries j w2 = failed_entries j w1"
      using rs [of e c cr] r2 by simp_all
    show ?thesis using cs Inr t r2 w2 w1 esc [of e]
      by (simp add: try_body_def split: sum.splits)
  qed
  then show "map email_id (emails (snd (try_body env i w))) = map email_id (emails w)"
    "failed_entries j (snd (try_body env i w)) = failed_entries j w"
    by simp_all
qed

lemma attempt_fails:
  assumes "get_email i w = Inr e0" and "fst (try_body env i w) = Inl x" and "x \<noteq> DoesNotExist"
  shows "\<exists>w'. process_email_task env n i w = (retry n x (60 * 2 ^ n), w')
           \<and> status_of i w' = Some New \<and> (\<exists>e. get_email i w' = Inr e)
           \<and> failed_entries i w' = failed_entries i w @
                [\<lparr>log_email = i, step = ''processing'', log_status = Failed,
                  details = JObj [], error_message = Some x\<rparr>]"
proof -
  define w2 where "w2 = snd (try_body env i w)"
  have tb: "try_body env i w = (Inl x, w2)"
    using assms(2) by (simp add: w2_def prod_eq_iff)
  have p: "process_email_task env n i w = (retry n x (60 * 2 ^ n), log_failure i x w2)"
    using process_raises [OF tb assms(3)] .
  have "i \<in> set (map email_id (emails w))"
    using assms(1) get_email_exists [of i w] by blast
  then have "i \<in> set (map email_id (emails w2))"
    using try_body_frame(1) [of env i w] by (simp add: w2_def)
  then obtain e where e: "get_email i w2 = Inr e" using get_email_exists [of i w2] by blast
  note lf = log_failure_effect [OF e, of x]
  have st: "status_of i (log_failure i x w2) = Some New" by (rule lf(1))
  then have ex: "\<exists>e. get_email i (log_failure i x w2) = Inr e"
    by (cases "get_email i (log_failure i x w2)") (simp_all add: status_of_def)
  have "failed_entries i (log_failure i x w2) = failed_entries i w2 @
                [\<lparr>log_email = i, step = ''processing'', log_status = Failed,
                  details = JObj [], error_message = Some x\<rparr>]"
    using lf(8) by (simp add: failed_entries_def)
  then have fe: "failed_entries i (log_failure i x w2) = failed_entries i w @
                [\<lparr>log_email = i, step = ''processing'', log_status = Failed,
                  details = JObj [], error_message = Some x\<rparr>]"
    using try_body_frame(2) [of i env i w] by (simp add: w2_def)
  show ?thesis using p st ex fe by blast
qed

lemma worker_retry:
  "process_email_task (envs n) n i w = (retry n x c, w') \<Longrightarrow> n < max_retries \<Longrightarrow>
   worker envs n i w = (case worker envs (Suc n) i w' of (cs, r) \<Rightarrow> (c # cs, r))"
  by (subst worker.simps) (simp add: retry_def)

lemma worker_raise:
  "process_email_task (envs n) n i w = (retry n x c, w') \<Longrightarrow> \<not> n < max_retries \<Longrightarrow>
   worker envs n i w = ([], Raised x, w')"
  by (subst worker.simps) (simp add: retry_def)

lemma raised_try_body:
  assumes "raised (fst (process_email_task env n i w))"
  shows "\<exists>x. fst (try_body env i w) = Inl x \<and> x \<noteq> DoesNotExist"
proof (cases "fst (try_body env i w)")
  case (Inl x)
  have "x \<noteq> DoesNotExist"
  proof
    assume "x = DoesNotExist"
    with Inl have "fst (process_email_task env n i w) = Returned Email_not_found"
      by (cases "try_body env i w") (simp add: process_email_task_def)
    with assms show False by (simp add: raised_def)
  qed
  with Inl show ?thesis by blast
next
  case (Inr r)
  then have "fst (process_email_task env n i w) = Returned r"
    by (cases "try_body env i w") (simp add: process_email_task_def)
  with assms show ?thesis by (simp add: raised_def)
qed

lemma try_body_raises_exists:
  assumes "fst (try_body env i w) = Inl x" and "x \<noteq> DoesNotExist"
  shows "\<exists>e. get_email i w = Inr e"
proof (cases "get_email i w")
  case (Inl y)
  then have "y = DoesNotExist" by (simp add: get_email_def split: option.splits)
  with Inl have "fst (try_body env i w) = Inl DoesNotExist"
    by (simp add: try_body_def classification_step_def)
  with assms show ?thesis by simp
next
  case (Inr e)
  then show ?thesis by blast
qed

text \<open>
  C7. When every run of the task raises, each in the state that the runs before it
  have left, the worker runs the task four times: the first run and exactly three
  retries, queued with countdowns of 60, 120 and 240 seconds (60 times 2 to the retry
  number). Every run logs a failed entry and leaves the email in status new; after the
  last run the exception is raised, the task is not queued again, and the email is in
  status new.
\<close>

theorem retry_exhaustion:
  assumes "\<And>k. k \<le> max_retries \<Longrightarrow>
             raised (fst (process_email_task (envs k) k i (run_state envs i w k)))"
  shows "(\<exists>x. worker envs 0 i w
              = (map (\<lambda>k. 60 * 2 ^ k) [0..<max_retries], Raised x,
                 run_state envs i w (Suc max_retries)))
       \<and> map (\<lambda>k. 60 * 2 ^ k) [0..<max_retries] = [60, 120, 240 :: nat]
       \<and> status_of i (run_state envs i w (Suc max_retries)) = Some New
       \<and> length (failed_entries i (run_state envs i w (Suc max_retries)))
           = length (failed_entries i w) + 4
       \<and> (\<forall>k \<le> max_retries.
             status_of i (run_state envs i w (Suc k)) = Some New
             \<and> length (failed_entries i (run_state envs i w (Suc k)))
                 = Suc (length (failed_entries i (run_state envs i w k))))"
proof -
  define v where "v = run_state envs i w"
  have v0: "v 0 = w" and vS: "\<And>k. v (Suc k) = snd (process_email_task (envs k) k i (v k))"
    by (simp_all add: v_def)
  have mr: "max_retries = Suc (Suc (Suc 0))" by (simp add: max_retries_def)
  have step: "\<exists>x. process_email_task (envs k) k i (v k) = (retry k x (60 * 2 ^ k), v (Suc k))
           \<and> status_of i (v (Suc k)) = Some New
           \<and> length (failed_entries i (v (Suc k))) = Suc (length (failed_entries i (v k)))"
    if "k \<le> max_retries" for k
  proof -
    have "raised (fst (process_email_task (envs k) k i (v k)))"
      using assms [OF that] by (simp only: v_def)
    from raised_try_body [OF this] obtain x where
      x: "fst (try_body (envs k) i (v k)) = Inl x" "x \<noteq> DoesNotExist"
      by blast
    from try_body_raises_exists [OF x] obtain e where "get_email i (v k) = Inr e" by blast
    from attempt_fails [OF this x, of k] obtain w' where
      w': "process_email_task (envs k) k i (v k) = (retry k x (60 * 2 ^ k), w')"
        "status_of i w' = Some New"
        "failed_entries i w' = failed_entries i (v k) @
                [\<lparr>log_email = i, step = ''processing'', log_status = Failed,
                  details = JObj [], error_message = Some x\<rparr>]"
      by blast
    have "v (Suc k) = w'" using w'(1) by (simp only: vS snd_conv)
    with w' have "process_email_task (envs k) k i (v k) = (retry k x (60 * 2 ^ k), v (Suc k))
           \<and> status_of i (v (Suc k)) = Some New
           \<and> length (failed_entries i (v (Suc k))) = Suc (length (failed_entries i (v k)))"
      by simp
    then show ?thesis by (rule exI)
  qed
  from step [of 0] obtain x0 where
    p0: "process_email_task (envs 0) 0 i (v 0) = (retry 0 x0 (60 * 2 ^ 0), v (Suc 0))"
    and f1: "length (failed_entries i (v (Suc 0))) = Suc (length (failed_entries i (v 0)))"
    by (auto simp: mr)
  from step [of "Suc 0"] obtain x1 where
    p1: "process_email_task (envs (Suc 0)) (Suc 0) i (v (Suc 0))
           = (retry (Suc 0) x1 (60 * 2 ^ Suc 0), v (Suc (Suc 0)))"
    and f2: "length (failed_entries i (v (Suc (Suc 0))))
               = Suc (length (failed_entries i (v (Suc 0))))"
    by (auto simp: mr)
  from step [of "Suc (Suc 0)"] obtain x2 where
    p2: "process_email_task (envs (Suc (Suc 0))) (Suc (Suc 0)) i (v (Suc (Suc 0)))
           = (retry (Suc (Suc 0)) x2 (60 * 2 ^ Suc (Suc 0)), v (Suc (Suc (Suc 0))))"
    and f3: "length (failed_entries i (v (Suc (Suc (Suc 0)))))
               = Suc (length (failed_entries i (v (Suc (Suc 0)))))"
    by (auto simp: mr)
  from step [of "Suc (Suc (Suc 0))"] obtain x3 where
    p3: "process_email_task (envs (Suc (Suc (Suc 0)))) (Suc (Suc (Suc 0))) i
           (v (Suc (Suc (Suc 0))))
           = (retry (Suc (Suc (Suc 0))) x3 (60 * 2 ^ Suc (Suc (Suc 0))),
              v (Suc (Suc (Suc (Suc 0)))))"
    and s4: "status_of i (v (Suc (Suc (Suc (Suc 0))))) = Some New"
    and f4: "length (failed_entries i (v (Suc (Suc (Suc (Suc 0))))))
               = Suc (length (failed_entries i (v (Suc (Suc (Suc 0))))))"
    by (auto simp: mr)
  have r3: "worker envs (Suc (Suc (Suc 0))) i (v (Suc (Suc (Suc 0))))
              = ([], Raised x3, v (Suc (Suc (Suc (Suc 0)))))"
    by (rule worker_raise [where envs = envs, OF p3]) (simp add: mr)
  have "worker envs (Suc (Suc 0)) i (v (Suc (Suc 0)))
          = (case worker envs (Suc (Suc (Suc 0))) i (v (Suc (Suc (Suc 0)))) of
               (cs, r) \<Rightarrow> (60 * 2 ^ Suc (Suc 0) # cs, r))"
    by (rule worker_retry [where envs = envs, OF p2]) (simp add: mr)
  then have r2: "worker envs (Suc (Suc 0)) i (v (Suc (Suc 0)))
              = ([240], Raised x3, v (Suc (Suc (Suc (Suc 0)))))"
    by (simp only: r3) simp
  have "worker envs (Suc 0) i (v (Suc 0))
          = (case worker envs (Suc (Suc 0)) i (v (Suc (Suc 0))) of
               (cs, r) \<Rightarrow> (60 * 2 ^ Suc 0 # cs, r))"
    by (rule worker_retry [where envs = envs, OF p1]) (simp add: mr)
  then have r1: "worker envs (Suc 0) i (v (Suc 0))
              = ([120, 240], Raised x3, v (Suc (Suc (Suc (Suc 0)))))"
    by (simp only: r2) simp
  have "worker envs 0 i (v 0)
          = (case worker envs (Suc 0) i (v (Suc 0)) of (cs, r) \<Rightarrow> (60 * 2 ^ 0 # cs, r))"
    by (rule worker_retry [where envs = envs, OF p0]) (simp add: mr)
  then have r0: "worker envs 0 i (v 0) = ([60, 120, 240], Raised x3, v (Suc max_retries))"
    by (simp only: r1 mr) simp
  have cs: "map (\<lambda>k. 60 * 2 ^ k) [0..<max_retries] = [60, 120, 240 :: nat]"
    by (simp add: max_retries_def upt_rec)
  have first: "\<exists>x. worker envs 0 i w
              = (map (\<lambda>k. 60 * 2 ^ k) [0..<max_retries], Raised x,
                 run_state envs i w (Suc max_retries))"
    using r0 by (simp only: cs v0) (simp only: v_def, blast)
  have "length (failed_entries i (v (Suc max_retries))) = length (failed_entries i (v 0)) + 4"
    by (simp add: mr f1 f2 f3 f4)
  then have total: "length (failed_entries i (run_state envs i w (Suc max_retries)))
           = length (failed_entries i w) + 4"
    unfolding v_def by (simp del: run_state.simps(2))
  have "\<forall>k \<le> max_retries.
             status_of i (v (Suc k)) = Some New
             \<and> length (failed_entries i (v (Suc k))) = Suc (length (failed_entries i (v k)))"
    using step by blast
  then have each: "\<forall>k \<le> max_retries.
             status_of i (run_state envs i w (Suc k)) = Some New
             \<and> length (failed_entries i (run_state envs i w (Suc k)))
                 = Suc (length (failed_entries i (run_state envs i w k)))"
    by (simp only: v_def)
  have "status_of i (v (Suc max_retries)) = Some New"
    using s4 by (simp only: mr)
  then have last: "status_of i (run_state envs i w (Suc max_retries)) = Some New"
    by (simp only: v_def)
  show ?thesis using first cs last total each by blast
qed

section \<open>Instances\<close>

text \<open>
  What the columns refuse, at work. An escalation flag \<open>yes\<close> is no boolean: saving the
  classification raises \<open>ValidationError\<close>, line 98 is not reached, and the run ends in
  the handler with the email in status new, not escalated.
\<close>

lemma refused_flag_not_escalated:
  "escalation_required (ex_env (Inr text_flag) (Inr text_prose) None) 1 (ex_world New) = None
   \<and> fst (process_email_task (ex_env (Inr text_flag) (Inr text_prose) None) 0 1 (ex_world New))
       = Retry 60 ValidationError
   \<and> status_of 1 (snd (process_email_task (ex_env (Inr text_flag) (Inr text_prose) None) 0 1
                         (ex_world New))) = Some New"
  by code_simp

text \<open>
  A confidence \<open>high\<close> of the reply data is no number: creating the draft raises
  \<open>ValueError\<close>; no draft is stored and no use count has moved.
\<close>

lemma refused_confidence_no_draft:
  "fst (process_email_task (ex_env (Inr text_billing) (Inr text_high) None) 0 1 (ex_world New))
     = Retry 60 ValueError
   \<and> replies (snd (process_email_task (ex_env (Inr text_billing) (Inr text_high) None) 0 1
                      (ex_world New))) = []
   \<and> kb_articles (snd (process_email_task (ex_env (Inr text_billing) (Inr text_high) None) 0 1
                      (ex_world New))) = kb_articles (ex_world New)"
  by code_simp

text \<open>
  A use count at the largest integer that the database stores cannot be incremented:
  saving the article raises \<open>OverflowError\<close> and the count stays.
\<close>

lemma use_count_at_bound_raises:
  "increment_use_counts [ex_article 1 1 max_integer True]
     ((ex_world New)\<lparr>kb_articles := [ex_article 1 1 max_integer True]\<rparr>)
   = (Inl OverflowError, (ex_world New)\<lparr>kb_articles := [ex_article 1 1 max_integer True]\<rparr>)"
  by (simp add: max_integer_def ex_article_def)

text \<open>
  C3. The round trip \<open>unmask(mask(t).text, mask(t).tokenMap) == t\<close> fails on the text
  below. The card number is replaced by \<open>[CARD_0]\<close>; the password \<open>0\<close> is then replaced
  everywhere in the masked text, also inside the token \<open>[CARD_0]\<close>, which unmasking
  no longer finds: the card number is not restored.
\<close>

theorem mask_roundtrip_fails:
  "mask_sensitive_data ''My card is 4111 1111 1111 1111, pwd: 0'' =
     (''My card is [CARD_[PASSWORD_1]], pwd: [PASSWORD_1]'',
      [(''[CARD_0]'', ''4111 1111 1111 1111''), (''[PASSWORD_1]'', ''0'')])
   \<and> unmask_sensitive_data
       (fst (mask_sensitive_data ''My card is 4111 1111 1111 1111, pwd: 0''))
       (snd (mask_sensitive_data ''My card is 4111 1111 1111 1111, pwd: 0''))
     = ''My card is [CARD_0], pwd: 0''"
  by code_simp

theorem auto_send_gating_witness:
  "generated (ex_env (Inr text_billing) (Inr (text_reply ''0.81'' ''false'')) None) 1 (ex_world New)
     = Some (ex_reply_data 0.81 False, ex_selected)
   \<and> getitem (ex_reply_data 0.81 False) ''confidence'' = Inr (JNum 0.81)
   \<and> getitem (ex_reply_data 0.81 False) ''requires_review'' = Inr (JBool False)
   \<and> map use_count ex_selected = [9, 5, 3]
   \<and> float_field (ex_env (Inr text_billing) (Inr (text_reply ''0.81'' ''false'')) None) (JNum 0.81)
       = None
   \<and> auto_reply_threshold (ex_env (Inr text_billing) (Inr (text_reply ''0.81'' ''false'')) None) \<le> 0.81
   \<and> (\<exists>d m. replies (snd (process_email_task
                 (ex_env (Inr text_billing) (Inr (text_reply ''0.81'' ''false'')) None) 0 1 (ex_world New)))
               = replies (ex_world New) @ [d]
             \<and> reply_status d \<in> {Approved, Sent}
             \<and> smtp_calls (snd (process_email_task
                 (ex_env (Inr text_billing) (Inr (text_reply ''0.81'' ''false'')) None) 0 1 (ex_world New)))
               = smtp_calls (ex_world New) @ [m]
             \<and> mail_body m = reply_body d)"
proof -
  have h1: "generated (ex_env (Inr text_billing) (Inr (text_reply ''0.81'' ''false'')) None) 1 (ex_world New)
     = Some (ex_reply_data 0.81 False, ex_selected)"
    by code_simp
  have h2: "getitem (ex_reply_data 0.81 False) ''confidence'' = Inr (JNum 0.81)"
    by (simp add: ex_reply_data_def getitem_def)
  have h3: "getitem (ex_reply_data 0.81 False) ''requires_review'' = Inr (JBool False)"
    by (simp add: ex_reply_data_def getitem_def)
  have h4: "auto_reply_threshold (ex_env (Inr text_billing) (Inr (text_reply ''0.81'' ''false'')) None) \<le> 0.81"
    by (simp add: ex_env_def)
  have u: "map use_count ex_selected = [9, 5, 3]"
    by (simp add: ex_selected_def ex_article_def)
  have h5: "\<forall>a \<in> set ex_selected. use_count a < max_integer"
    by (simp add: ex_selected_def ex_article_def max_integer_def)
  have h6: "float_field (ex_env (Inr text_billing) (Inr (text_reply ''0.81'' ''false'')) None)
              (JNum 0.81) = None"
    by (simp add: float_field_def float_limit_def)
  from auto_send_gating [OF h1 h2 h3 surjective_pairing h5 h6, where n = 0] h4
  show ?thesis using h1 h2 h3 u h6 by simp
qed

text \<open>
  C1 as stated fails: with threshold 0.8, confidence 0.79 and no review asked for, the
  email goes to pending review, but the draft is not set to pending approval: it stays
  a plain draft.
\<close>

theorem low_confidence_draft_not_pending_approval:
  "generated (ex_env (Inr text_billing) (Inr (text_reply ''0.79'' ''false'')) None) 1 (ex_world New)
     = Some (ex_reply_data 0.79 False, ex_selected)
   \<and> map reply_status (replies (snd (process_email_task
         (ex_env (Inr text_billing) (Inr (text_reply ''0.79'' ''false'')) None) 0 1 (ex_world New))))
       = [Draft]
   \<and> status_of 1 (snd (process_email_task
         (ex_env (Inr text_billing) (Inr (text_reply ''0.79'' ''false'')) None) 0 1 (ex_world New)))
       = Some Pending_review"
  by code_simp

theorem auto_send_outcome_witness:
  "generated (ex_env (Inr text_billing) (Inr (text_reply ''0.81'' ''false''))
                (Some (SMTPException ''Connection refused''))) 1 (ex_world New)
     = Some (ex_reply_data 0.81 False, ex_selected)
   \<and> getitem (ex_reply_data 0.81 False) ''confidence'' = Inr (JNum 0.81)
   \<and> getitem (ex_reply_data 0.81 False) ''requires_review'' = Inr (JBool False)
   \<and> auto_reply_threshold (ex_env (Inr text_billing) (Inr (text_reply ''0.81'' ''false''))
                (Some (SMTPException ''Connection refused''))) \<le> 0.81
   \<and> \<not> truthy (JBool False)
   \<and> map use_count ex_selected = [9, 5, 3]
   \<and> float_field (ex_env (Inr text_billing) (Inr (text_reply ''0.81'' ''false''))
                (Some (SMTPException ''Connection refused''))) (JNum 0.81) = None
   \<and> get_email 1 (ex_world New) = Inr (ex_email New)
   \<and> getitem (ex_reply_data 0.81 False) ''reply''
       = Inr (JStr (''Dear Ann,'' @ [CHR 0x0A, CHR 0x0A] @ ''Your invoice is attached.''))
   \<and> status_of 1 (snd (process_email_task
         (ex_env (Inr text_billing) (Inr (text_reply ''0.81'' ''false''))
                (Some (SMTPException ''Connection refused''))) 0 1 (ex_world New)))
       = Some Processing
   \<and> (\<exists>d. replies (snd (process_email_task
         (ex_env (Inr text_billing) (Inr (text_reply ''0.81'' ''false''))
                (Some (SMTPException ''Connection refused''))) 0 1 (ex_world New)))
       = replies (ex_world New) @ [d] \<and> reply_status d = Approved)
   \<and> (\<exists>r. fst (process_email_task
         (ex_env (Inr text_billing) (Inr (text_reply ''0.81'' ''false''))
                (Some (SMTPException ''Connection refused''))) 0 1 (ex_world New)) = Returned r)"
proof -
  define env where "env = ex_env (Inr text_billing) (Inr (text_reply ''0.81'' ''false''))
                (Some (SMTPException ''Connection refused''))"
  have h1: "generated env 1 (ex_world New) = Some (ex_reply_data 0.81 False, ex_selected)"
    unfolding env_def by code_simp
  have h2: "getitem (ex_reply_data 0.81 False) ''confidence'' = Inr (JNum 0.81)"
    by (simp add: ex_reply_data_def getitem_def)
  have h3: "getitem (ex_reply_data 0.81 False) ''requires_review'' = Inr (JBool False)"
    by (simp add: ex_reply_data_def getitem_def)
  have h4: "auto_reply_threshold env \<le> 0.81"
    by (simp add: env_def ex_env_def)
  have h5: "\<not> truthy (JBool False)" by simp
  have h6: "get_email 1 (ex_world New) = Inr (ex_email New)"
    by (simp add: get_email_def ex_world_def ex_email_def)
  have h7: "getitem (ex_reply_data 0.81 False) ''reply''
       = Inr (JStr (''Dear Ann,'' @ [CHR 0x0A, CHR 0x0A] @ ''Your invoice is attached.''))"
    by (simp add: ex_reply_data_def getitem_def)
  have h8: "smtp_send env \<lparr>mail_to = from_email (ex_email New),
               mail_subject = ''Re: '' @ subject (ex_email New),
               mail_body = ''Dear Ann,'' @ [CHR 0x0A, CHR 0x0A] @ ''Your invoice is attached.''\<rparr>
             = Some (SMTPException ''Connection refused'')"
    by (simp add: env_def ex_env_def)
  have u: "map use_count ex_selected = [9, 5, 3]"
    by (simp add: ex_selected_def ex_article_def)
  have h9: "\<forall>a \<in> set ex_selected. use_count a < max_integer"
    by (simp add: ex_selected_def ex_article_def max_integer_def)
  have h10: "float_field env (JNum 0.81) = None"
    by (simp add: float_field_def float_limit_def)
  from auto_send_outcome [OF h1 h2 h3 h4 h5 h6 h7 h8 surjective_pairing h9 h10, where n = 0]
  show ?thesis using h1 h2 h3 h4 h5 h6 h7 u h10 unfolding env_def by simp
qed

theorem generation_parse_failure_witness:
  "escalation_required (ex_env (Inr text_billing) (Inr text_prose) None) 1 (ex_world New) = Some False
   \<and> (\<forall>c k s b. messages_create (ex_env (Inr text_billing) (Inr text_prose) None)
                    (ReplyRequest c k s b) = Inr text_prose)
   \<and> json_loads (ex_env (Inr text_billing) (Inr text_prose) None) (strip_fences text_prose)
       = Inl JSONDecodeError
   \<and> replies (snd (process_email_task (ex_env (Inr text_billing) (Inr text_prose) None) 0 1
                     (ex_world New))) = replies (ex_world New)
   \<and> status_of 1 (snd (process_email_task (ex_env (Inr text_billing) (Inr text_prose) None) 0 1
                     (ex_world New))) = Some New"
proof -
  define env where "env = ex_env (Inr text_billing) (Inr text_prose) None"
  have h1: "escalation_required env 1 (ex_world New) = Some False"
    unfolding env_def by code_simp
  have h2: "messages_create env (ReplyRequest c k s b) = Inr text_prose" for c k s b
    by (simp add: env_def ex_env_def)
  have h3: "json_loads env (strip_fences text_prose) = Inl JSONDecodeError"
    unfolding env_def by code_simp
  from generation_parse_failure [OF h1 h2 h3 surjective_pairing, where n = 0]
  show ?thesis using h1 h2 h3 unfolding env_def by simp
qed

theorem escalation_precedence_witness:
  "escalation_required (ex_env (Inr text_legal) (Inr (text_reply ''0.95'' ''true'')) None) 1
     (ex_world New) = Some True
   \<and> status_of 1 (snd (process_email_task
        (ex_env (Inr text_legal) (Inr (text_reply ''0.95'' ''true'')) None) 0 1 (ex_world New)))
       = Some Escalated
   \<and> notifications (snd (process_email_task
        (ex_env (Inr text_legal) (Inr (text_reply ''0.95'' ''true'')) None) 0 1 (ex_world New)))
       = notifications (ex_world New) @ [1]
   \<and> replies (snd (process_email_task
        (ex_env (Inr text_legal) (Inr (text_reply ''0.95'' ''true'')) None) 0 1 (ex_world New)))
       = replies (ex_world New)"
proof -
  define env where "env = ex_env (Inr text_legal) (Inr (text_reply ''0.95'' ''true'')) None"
  have h1: "escalation_required env 1 (ex_world New) = Some True"
    unfolding env_def by code_simp
  from escalation_precedence [OF h1 surjective_pairing, where n = 0]
  show ?thesis using h1 unfolding env_def by simp
qed

theorem status_not_inspected_witness:
  "get_email 1 (ex_world New) = Inr (ex_email New)
   \<and> process_email_task (ex_env (Inr text_billing) (Inr (text_reply ''0.81'' ''false'')) None) 0 1
       (save_email ((ex_email New)\<lparr>status := Replied\<rparr>) (ex_world New))
     = process_email_task (ex_env (Inr text_billing) (Inr (text_reply ''0.81'' ''false'')) None) 0 1
         (save_email ((ex_email New)\<lparr>status := New\<rparr>) (ex_world New))"
proof -
  have h: "get_email 1 (ex_world New) = Inr (ex_email New)"
    by (simp add: get_email_def ex_world_def ex_email_def)
  from status_not_inspected [OF h, where n = 0 and s = Replied] h
  show ?thesis by simp
qed

text \<open>
  C2 as stated fails: the task is run again, with no flag, on an email that is already
  replied. It is not a no-op: the reasoning service is called twice, a new draft is
  created and a reply is sent.
\<close>

theorem redelivery_on_replied_email_sends_again:
  "status_of 1 (ex_world Replied) = Some Replied
   \<and> replies (ex_world Replied) = [] \<and> smtp_calls (ex_world Replied) = []
   \<and> map reply_status (replies (snd (process_email_task
         (ex_env (Inr text_billing) (Inr (text_reply ''0.81'' ''false'')) None) 0 1
         (ex_world Replied)))) = [Sent]
   \<and> length (smtp_calls (snd (process_email_task
         (ex_env (Inr text_billing) (Inr (text_reply ''0.81'' ''false'')) None) 0 1
         (ex_world Replied)))) = 1"
  by code_simp

theorem classification_fallback_witness:
  "messages_create (ex_env (Inr text_prose) (Inr text_prose) None)
     (ClassifyRequest (map cat_name (categories (ex_world New))) ''Invoice''
        (fst (mask_sensitive_data ''Please resend my invoice.''))) = Inr text_prose
   \<and> json_loads (ex_env (Inr text_prose) (Inr text_prose) None) (strip_fences text_prose)
       = Inl JSONDecodeError
   \<and> fst (classify_email (ex_env (Inr text_prose) (Inr text_prose) None) ''Invoice''
            ''Please resend my invoice.'' (ex_world New)) = Inr default_classification"
proof -
  define env where "env = ex_env (Inr text_prose) (Inr text_prose) None"
  have h1: "messages_create env
     (ClassifyRequest (map cat_name (categories (ex_world New))) ''Invoice''
        (fst (mask_sensitive_data ''Please resend my invoice.''))) = Inr text_prose"
    by (simp add: env_def ex_env_def)
  have h2: "json_loads env (strip_fences text_prose) = Inl JSONDecodeError"
    unfolding env_def by code_simp
  from classification_fallback [OF h1] h2
  show ?thesis using h1 unfolding env_def by simp
qed

text \<open>
  C4 as stated fails for a category outside the configured set: the service answers
  with the category \<open>weather\<close>, the configured categories are billing and general, and
  \<open>classify_email\<close> returns the answer as it is, not the default classification.
\<close>

theorem unknown_category_not_defaulted:
  "map cat_name (categories (ex_world New)) = [''billing'', ''general'']
   \<and> fst (classify_email (ex_env (Inr text_weather) (Inr text_prose) None) ''Invoice''
            ''Please resend my invoice.'' (ex_world New)) = Inr json_weather
   \<and> getitem json_weather ''category'' = Inr (JStr ''weather'')
   \<and> json_weather \<noteq> default_classification"
  by code_simp

theorem ingest_twice_witness:
  "distinct (map message_id (emails (ex_world New)))
   \<and> \<not> isl (fst (parse_email
          \<lparr>raw_message_id = ''<m2@example.com>'',
           raw_fields = Inr \<lparr>pf_from_email = ''bob@example.com'', pf_from_name = ''Bob'',
                             pf_subject = ''Login'', pf_body = ''I cannot log in.''\<rparr>\<rparr>
          (ex_world New)))
   \<and> length (filter (\<lambda>e. message_id e = ''<m2@example.com>'')
        (emails (snd (parse_email
          \<lparr>raw_message_id = ''<m2@example.com>'',
           raw_fields = Inr \<lparr>pf_from_email = ''bob@example.com'', pf_from_name = ''Bob'',
                             pf_subject = ''Login'', pf_body = ''I cannot log in.''\<rparr>\<rparr>
          (ex_world New))))) = 1
   \<and> fst (parse_email
          \<lparr>raw_message_id = ''<m2@example.com>'',
           raw_fields = Inl (Exception ''unknown encoding'')\<rparr>
          (snd (parse_email
          \<lparr>raw_message_id = ''<m2@example.com>'',
           raw_fields = Inr \<lparr>pf_from_email = ''bob@example.com'', pf_from_name = ''Bob'',
                             pf_subject = ''Login'', pf_body = ''I cannot log in.''\<rparr>\<rparr>
          (ex_world New)))) = Inr None"
proof -
  define d1 where "d1 = \<lparr>raw_message_id = ''<m2@example.com>'',
           raw_fields = Inr \<lparr>pf_from_email = ''bob@example.com'', pf_from_name = ''Bob'',
                             pf_subject = ''Login'', pf_body = ''I cannot log in.''\<rparr>\<rparr>"
  define d2 where "d2 = \<lparr>raw_message_id = ''<m2@example.com>'',
           raw_fields = (Inl (Exception ''unknown encoding'') :: exn + parsed_fields)\<rparr>"
  have h1: "distinct (map message_id (emails (ex_world New)))"
    by (simp add: ex_world_def)
  have h2: "\<not> isl (fst (parse_email d1 (ex_world New)))"
    by (simp add: parse_email_def d1_def ex_world_def ex_email_def Let_def)
  have h3: "raw_message_id d2 = raw_message_id d1" by (simp add: d1_def d2_def)
  from ingest_twice [OF h1 h2 h3]
  show ?thesis using h1 h2 unfolding d1_def d2_def by simp
qed

theorem knowledge_selection_and_use_witness:
  "generated (ex_env (Inr text_billing) (Inr (text_reply ''0.79'' ''false'')) None) 1 (ex_world New)
     = Some (ex_reply_data 0.79 False, ex_selected)
   \<and> classification_of (ex_env (Inr text_billing) (Inr (text_reply ''0.79'' ''false'')) None) 1
       (ex_world New) = Some json_billing
   \<and> getitem json_billing ''category'' = Inr (JStr ''billing'')
   \<and> getitem (ex_reply_data 0.79 False) ''confidence'' = Inr (JNum 0.79)
   \<and> float_field (ex_env (Inr text_billing) (Inr (text_reply ''0.79'' ''false'')) None) (JNum 0.79)
       = None
   \<and> getitem (ex_reply_data 0.79 False) ''requires_review'' = Inr (JBool False)
   \<and> distinct (map kb_id (kb_articles (ex_world New)))
   \<and> map use_count ex_selected = [9, 5, 3]
   \<and> find_category (ex_env (Inr text_billing) (Inr (text_reply ''0.79'' ''false'')) None)
       (JStr ''billing'') (ex_world New) = Some \<lparr>cat_id = 1, cat_name = ''billing''\<rparr>
   \<and> ex_selected = select_articles (Some \<lparr>cat_id = 1, cat_name = ''billing''\<rparr>) (ex_world New)
   \<and> ex_selected = [ex_article 2 1 9 True, ex_article 1 1 5 True, ex_article 6 1 3 True]
   \<and> kb_articles (snd (process_email_task
        (ex_env (Inr text_billing) (Inr (text_reply ''0.79'' ''false'')) None) 0 1 (ex_world New)))
       = [ex_article 1 1 6 True, ex_article 2 1 10 True, ex_article 3 1 7 False,
          ex_article 4 2 2 True, ex_article 5 1 1 True, ex_article 6 1 4 True]"
proof -
  define env where "env = ex_env (Inr text_billing) (Inr (text_reply ''0.79'' ''false'')) None"
  have h1: "generated env 1 (ex_world New) = Some (ex_reply_data 0.79 False, ex_selected)"
    unfolding env_def by code_simp
  have h2: "classification_of env 1 (ex_world New) = Some json_billing"
    unfolding env_def by code_simp
  have h3: "getitem json_billing ''category'' = Inr (JStr ''billing'')"
    by (simp add: json_billing_def getitem_def)
  have h4: "getitem (ex_reply_data 0.79 False) ''confidence'' = Inr (JNum 0.79)"
    by (simp add: ex_reply_data_def getitem_def)
  have h5: "float_field env (JNum 0.79) = None"
    by (simp add: float_field_def float_limit_def)
  have h6: "getitem (ex_reply_data 0.79 False) ''requires_review'' = Inr (JBool False)"
    by (simp add: ex_reply_data_def getitem_def)
  have h7: "distinct (map kb_id (kb_articles (ex_world New)))"
    by (simp add: ex_world_def ex_article_def)
  have u: "map use_count ex_selected = [9, 5, 3]"
    by (simp add: ex_selected_def ex_article_def)
  have h8: "\<forall>a \<in> set ex_selected. use_count a < max_integer"
    by (simp add: ex_selected_def ex_article_def max_integer_def)
  have fc: "find_category env (JStr ''billing'') (ex_world New)
              = Some \<lparr>cat_id = 1, cat_name = ''billing''\<rparr>"
    by (simp add: find_category_def ex_world_def)
  have sel: "ex_selected = [ex_article 2 1 9 True, ex_article 1 1 5 True, ex_article 6 1 3 True]"
    by (simp add: ex_selected_def)
  have m: "map (\<lambda>a. if a \<in> set ex_selected then a\<lparr>use_count := use_count a + 1\<rparr> else a)
               (kb_articles (ex_world New))
            = [ex_article 1 1 6 True, ex_article 2 1 10 True, ex_article 3 1 7 False,
               ex_article 4 2 2 True, ex_article 5 1 1 True, ex_article 6 1 4 True]"
    by (simp add: ex_world_def ex_selected_def ex_article_def)
  from knowledge_selection_and_use [OF h1 h2 h3 h4 h5 h6 h7 h8 surjective_pairing, where n = 0]
  have "ex_selected = select_articles (find_category env (JStr ''billing'') (ex_world New))
                        (ex_world New)"
    and "kb_articles (snd (process_email_task env 0 1 (ex_world New)))
          = map (\<lambda>a. if a \<in> set ex_selected then a\<lparr>use_count := use_count a + 1\<rparr> else a)
               (kb_articles (ex_world New))"
    by blast+
  with h1 h2 h3 h4 h5 h6 h7 u fc sel m show ?thesis unfolding env_def by simp
qed

theorem retry_exhaustion_witness:
  "raised (fst (process_email_task
       (ex_env (Inl (APIError ''overloaded'')) (Inl (APIError ''overloaded'')) None) 0 1
       (run_state (\<lambda>k. ex_env (Inl (APIError ''overloaded'')) (Inl (APIError ''overloaded'')) None)
          1 (ex_world New) 0)))
   \<and> raised (fst (process_email_task
       (ex_env (Inl (APIError ''overloaded'')) (Inl (APIError ''overloaded'')) None) 1 1
       (run_state (\<lambda>k. ex_env (Inl (APIError ''overloaded'')) (Inl (APIError ''overloaded'')) None)
          1 (ex_world New) 1)))
   \<and> raised (fst (process_email_task
       (ex_env (Inl (APIError ''overloaded'')) (Inl (APIError ''overloaded'')) None) 2 1
       (run_state (\<lambda>k. ex_env (Inl (APIError ''overloaded'')) (Inl (APIError ''overloaded'')) None)
          1 (ex_world New) 2)))
   \<and> raised (fst (process_email_task
       (ex_env (Inl (APIError ''overloaded'')) (Inl (APIError ''overloaded'')) None) 3 1
       (run_state (\<lambda>k. ex_env (Inl (APIError ''overloaded'')) (Inl (APIError ''overloaded'')) None)
          1 (ex_world New) 3)))
   \<and> (\<exists>x. worker (\<lambda>k. ex_env (Inl (APIError ''overloaded'')) (Inl (APIError ''overloaded'')) None)
              0 1 (ex_world New)
            = ([60, 120, 240], Raised x,
               run_state (\<lambda>k. ex_env (Inl (APIError ''overloaded'')) (Inl (APIError ''overloaded'')) None)
                 1 (ex_world New) 4))
   \<and> status_of 1
        (run_state (\<lambda>k. ex_env (Inl (APIError ''overloaded'')) (Inl (APIError ''overloaded'')) None)
           1 (ex_world New) 4) = Some New
   \<and> length (failed_entries 1
        (run_state (\<lambda>k. ex_env (Inl (APIError ''overloaded'')) (Inl (APIError ''overloaded'')) None)
           1 (ex_world New) 4)) = 4"
proof -
  define envs :: "nat \<Rightarrow> env"
    where "envs = (\<lambda>k. ex_env (Inl (APIError ''overloaded'')) (Inl (APIError ''overloaded'')) None)"
  have r0: "raised (fst (process_email_task (envs 0) 0 1 (run_state envs 1 (ex_world New) 0)))"
    unfolding envs_def by code_simp
  have r1: "raised (fst (process_email_task (envs 1) 1 1 (run_state envs 1 (ex_world New) 1)))"
    unfolding envs_def by code_simp
  have r2: "raised (fst (process_email_task (envs 2) 2 1 (run_state envs 1 (ex_world New) 2)))"
    unfolding envs_def by code_simp
  have r3: "raised (fst (process_email_task (envs 3) 3 1 (run_state envs 1 (ex_world New) 3)))"
    unfolding envs_def by code_simp
  have f0: "length (failed_entries 1 (ex_world New)) = 0"
    by (simp add: failed_entries_def ex_world_def)
  have m: "Suc max_retries = 4" by (simp add: max_retries_def)
  have "(\<exists>x. worker envs 0 1 (ex_world New)
              = (map (\<lambda>k. 60 * 2 ^ k) [0..<max_retries], Raised x,
                 run_state envs 1 (ex_world New) (Suc max_retries)))
       \<and> map (\<lambda>k. 60 * 2 ^ k) [0..<max_retries] = [60, 120, 240 :: nat]
       \<and> status_of 1 (run_state envs 1 (ex_world New) (Suc max_retries)) = Some New
       \<and> length (failed_entries 1 (run_state envs 1 (ex_world New) (Suc max_retries)))
           = length (failed_entries 1 (ex_world New)) + 4
       \<and> (\<forall>k \<le> max_retries.
             status_of 1 (run_state envs 1 (ex_world New) (Suc k)) = Some New
             \<and> length (failed_entries 1 (run_state envs 1 (ex_world New) (Suc k)))
                 = Suc (length (failed_entries 1 (run_state envs 1 (ex_world New) k))))"
  proof (rule retry_exhaustion)
    fix k :: nat
    assume "k \<le> max_retries"
    then have "k = 0 \<or> k = 1 \<or> k = 2 \<or> k = 3" by (auto simp: max_retries_def)
    then show "raised (fst (process_email_task (envs k) k 1 (run_state envs 1 (ex_world New) k)))"
      using r0 r1 r2 r3 by blast
  qed
  then have a: "\<exists>x. worker envs 0 1 (ex_world New)
              = (map (\<lambda>k. 60 * 2 ^ k) [0..<max_retries], Raised x,
                 run_state envs 1 (ex_world New) (Suc max_retries))"
    and b: "map (\<lambda>k. 60 * 2 ^ k) [0..<max_retries] = [60, 120, 240 :: nat]"
    and s: "status_of 1 (run_state envs 1 (ex_world New) (Suc max_retries)) = Some New"
    and l: "length (failed_entries 1 (run_state envs 1 (ex_world New) (Suc max_retries)))
           = length (failed_entries 1 (ex_world New)) + 4"
    by blast+
  have c: "\<exists>x. worker envs 0 1 (ex_world New)
              = ([60, 120, 240], Raised x, run_state envs 1 (ex_world New) 4)"
    using a unfolding b m .
  have s: "status_of 1 (run_state envs 1 (ex_world New) 4) = Some New"
    using s unfolding m .
  have l: "length (failed_entries 1 (run_state envs 1 (ex_world New) 4)) = 4"
    using l unfolding m f0 by simp
  have e: "envs k = ex_env (Inl (APIError ''overloaded'')) (Inl (APIError ''overloaded'')) None"
    for k by (simp add: envs_def)
  from r0 r1 r2 r3 c s l show ?thesis unfolding e unfolding envs_def by blast
qed

end
